theory Spec2Isabelle
  imports Complex_Main
begin

section \<open>The U-Net training script (train.py)\<close>

text \<open>
  The script is glue over a deep-learning framework. The embedding follows the script:
  \<^item> everything the script can observe or change lives in a \<open>world\<close> record that is
    passed through every operation and returned, also when an exception is raised
    (the network object is mutated in place, so the handler of the main program sees the
    parameters as they were when the exception left \<open>train_net\<close>);
  \<^item> an exception is a value of \<open>error\<close>; an operation returns \<open>(error + result, world)\<close>;
  \<^item> the operations on collaborators (dataset constructors, the generator of random
    permutations, the forward pass with its loss, the optimizer step) are not part of
    train.py: they are fields of a record \<open>collab\<close>, left arbitrary;
  \<^item> \<open>random_split\<close>, \<open>DataLoader\<close>, \<open>Subset\<close> and the default collation are
    library code; they are modelled after their documented behaviour;
  \<^item> loss values are floating-point numbers in the script and real numbers here: rounding
    is not modelled;
  \<^item> a cancellation signal is a countdown \<open>sigint\<close> in the world: \<open>tick\<close> raises
    KeyboardInterrupt once the countdown is exhausted, and \<open>None\<close> means that no signal
    is pending. \<open>train_net\<close> calls \<open>tick\<close> before every operation that changes the
    world and at the end of the set-up and of every epoch, so that the signal can be
    delivered in every state of the world that \<open>train_net\<close> passes through. A
    collaborator may also return KeyboardInterrupt itself: that is a signal delivered
    inside the collaborator. A second signal, during the handler, is not modelled;
  \<^item> writing a file and making a directory can fail: the world records which names are
    directories and at which names the operating system refuses to write;
  \<^item> the world holds the state of the framework's default random generator; a generator
    object of the script's own is a value.
  Calls that only log text, the progress bar's rendering, the transfer of tensors to the
  device and \<open>net.train()\<close> leave no mark on the world.
\<close>

subsection \<open>Errors, paths and file names\<close>

datatype error =
    AssertionError
  | RuntimeError
  | ValueError
  | IndexError
  | ZeroDivisionError
  | KeyboardInterrupt
  | OSError

text \<open>A path is the list of its components, relative to the working directory.\<close>

type_synonym path = "string list"

definition dir_img_training :: path where
  "dir_img_training = [''..'', ''dfdc_deepfake_challenge'', ''dataset_new_1'', ''training'', ''crops'']"

definition dir_mask_training :: path where
  "dir_mask_training = [''..'', ''dfdc_deepfake_challenge'', ''dataset_new_1'', ''training'', ''masks'']"

definition dir_img_testing :: path where
  "dir_img_testing =
     [''..'', ''dfdc_deepfake_challenge'', ''dataset_new_1'', ''testing'', ''crops'', ''crops_testing'']"

definition dir_mask_testing :: path where
  "dir_mask_testing =
     [''..'', ''dfdc_deepfake_challenge'', ''dataset_new_1'', ''testing'', ''masks'', ''masks_testing'']"

definition dir_checkpoint :: path where
  "dir_checkpoint = [''checkpoints'']"

text \<open>The decimal rendering of a natural number, as an f-string writes it.\<close>

definition digit :: "nat \<Rightarrow> char" where
  "digit d = ''0123456789'' ! d"

function str_nat :: "nat \<Rightarrow> string" where
  "str_nat n = (if n < 10 then [digit n] else str_nat (n div 10) @ [digit (n mod 10)])"
  by pat_completeness auto
termination
  by (relation "measure id") auto

declare str_nat.simps [simp del]

text \<open>\<^verbatim>\<open>dir_checkpoint / f'checkpoint_epoch_224x224_{epoch + 1}.pth'\<close>\<close>

definition checkpoint_path :: "nat \<Rightarrow> path" where
  "checkpoint_path epoch =
     dir_checkpoint @ [''checkpoint_epoch_224x224_'' @ str_nat (epoch + 1) @ ''.pth'']"

text \<open>\<^verbatim>\<open>'INTERRUPTED.pth'\<close>, a file name with no directory part.\<close>

definition interrupt_path :: path where
  "interrupt_path = [''INTERRUPTED.pth'']"

text \<open>The directory a path lies in.\<close>

definition parent :: "path \<Rightarrow> path" where
  "parent p = butlast p"

subsection \<open>Samples, datasets, subsets and batches\<close>

text \<open>
  A sample is an image tensor of shape (channels, height, width) with its target; the
  pixel data of both is \<open>content\<close>.
\<close>

record 'a sample =
  img_shape :: "nat \<times> nat \<times> nat"
  content :: 'a

datatype strategy = Carvana | Basic

record 'a dataset =
  backed_by :: strategy
  samples :: "'a sample list"

text \<open>\<open>torch.utils.data.Subset\<close>: a dataset seen through a list of indices.\<close>

record 'a subset =
  base :: "'a dataset"
  indices :: "nat list"

text \<open>
  A collated batch: \<open>n_imgs\<close> is \<open>images.shape[0]\<close>, \<open>n_chans\<close> is \<open>images.shape[1]\<close>.
\<close>

record 'a batch =
  n_imgs :: nat
  n_chans :: nat
  items :: "'a sample list"

record 'a loader =
  source :: "'a subset"
  bsize :: nat
  drop_last :: bool

subsection \<open>The world and the collaborators\<close>

datatype 'p event =
    Construct strategy path path
  | TrackerInit
  | Forward nat
  | Loss real
  | OptimStep real
  | LogLoss real nat nat
  | Mkdir path
  | Save path 'p

text \<open>
  \<open>params\<close> is \<open>net.state_dict()\<close>, \<open>optim\<close> the internal state of the optimizer
  and of the gradient scaler, \<open>opt_lr\<close> is \<open>optimizer.param_groups[0]['lr']\<close>,
  \<open>sched_last_epoch\<close> counts the calls of \<open>scheduler.step\<close>, \<open>files\<close> holds the
  parameter files on disk, \<open>dirs\<close> the directories that exist (the working directory,
  \<open>[]\<close>, always does), \<open>unwritable\<close> the names at which the operating system refuses
  to create or open a file or a directory (no permission, a read-only file system),
  \<open>default_rng\<close> the state of \<open>torch.default_generator\<close>, \<open>trace\<close> the operations
  performed so far, oldest first. A failed operation leaves no event.
\<close>

record ('p, 'o) world =
  params :: 'p
  optim :: 'o
  opt_lr :: real
  sched_last_epoch :: nat
  files :: "path \<Rightarrow> 'p option"
  dirs :: "path set"
  unwritable :: "path set"
  default_rng :: nat
  trace :: "'p event list"
  sigint :: "nat option"

text \<open>
  The state of a generator is a number. \<open>manual_seed s\<close> is the state a generator has
  after \<open>manual_seed(s)\<close>, \<open>randperm n g\<close> the permutation that \<open>torch.randperm(n)\<close>
  draws from a generator in state \<open>g\<close>, and \<open>rng_next n g\<close> the state in which that
  draw leaves the generator.
\<close>

record ('a, 'p, 'o) collab =
  CarvanaDataset :: "path \<Rightarrow> path \<Rightarrow> real \<Rightarrow> error + 'a sample list"
  BasicDataset :: "path \<Rightarrow> path \<Rightarrow> real \<Rightarrow> error + 'a sample list"
  manual_seed :: "int \<Rightarrow> nat"
  randperm :: "nat \<Rightarrow> nat \<Rightarrow> nat list"
  rng_next :: "nat \<Rightarrow> nat \<Rightarrow> nat"
  optim_init :: "'p \<Rightarrow> real \<Rightarrow> 'o"
  net_loss :: "'p \<Rightarrow> bool \<Rightarrow> 'a batch \<Rightarrow> error + real"
  optim_step :: "real \<Rightarrow> bool \<Rightarrow> 'o \<times> 'p \<Rightarrow> 'a batch \<Rightarrow> real \<Rightarrow> 'o \<times> 'p"

definition emit :: "'p event \<Rightarrow> ('p, 'o) world \<Rightarrow> ('p, 'o) world" where
  "emit ev w = w\<lparr>trace := trace w @ [ev]\<rparr>"

text \<open>Delivery of a pending cancellation signal; a delivered signal is consumed.\<close>

definition tick :: "('p, 'o) world \<Rightarrow> (error + unit) \<times> ('p, 'o) world" where
  "tick w =
     (case sigint w of
        None \<Rightarrow> (Inr (), w)
      | Some k \<Rightarrow>
          (case k of
             0 \<Rightarrow> (Inl KeyboardInterrupt, w\<lparr>sigint := None\<rparr>)
           | Suc k' \<Rightarrow> (Inr (), w\<lparr>sigint := Some k'\<rparr>)))"

subsection \<open>Library: random_split and DataLoader\<close>

text \<open>
  The generator argument of a library function: the default generator, whose state
  lives in the world and is advanced by every draw, or a generator object that the caller
  made, in the given state. The script keeps no reference to the generators it makes, so
  the state in which a draw leaves such an object is not recorded.
\<close>

datatype generator = Default | Own nat

definition draw_randperm ::
  "('a, 'p, 'o) collab \<Rightarrow> nat \<Rightarrow> generator \<Rightarrow> ('p, 'o) world \<Rightarrow> nat list \<times> ('p, 'o) world" where
  "draw_randperm c n gen w =
     (case gen of
        Default \<Rightarrow> (randperm c n (default_rng w), w\<lparr>default_rng := rng_next c n (default_rng w)\<rparr>)
      | Own g \<Rightarrow> (randperm c n g, w))"

text \<open>
  \<open>random_split(dataset, lengths, generator=default_generator)\<close> raises ValueError
  unless the lengths sum to the length of the dataset, draws one permutation of all
  indices from the generator and cuts it into consecutive runs of the requested lengths.
\<close>

fun slices :: "nat list \<Rightarrow> nat list \<Rightarrow> nat list list" where
  "slices idx [] = []"
| "slices idx (l # ls) = take l idx # slices (drop l idx) ls"

definition random_split ::
  "('a, 'p, 'o) collab \<Rightarrow> 'a dataset \<Rightarrow> nat list \<Rightarrow> generator \<Rightarrow> ('p, 'o) world
     \<Rightarrow> (error + 'a subset list) \<times> ('p, 'o) world" where
  "random_split c ds lengths gen w =
     (if sum_list lengths \<noteq> length (samples ds) then (Inl ValueError, w)
      else
        (case draw_randperm c (sum_list lengths) gen w of
           (perm, w') \<Rightarrow>
             (Inr (map (\<lambda>is. \<lparr>base = ds, indices = is\<rparr>) (slices perm lengths)), w')))"

text \<open>\<open>DataLoader(subset, shuffle=False, drop_last=dl, batch_size=b, ...)\<close>\<close>

definition DataLoader :: "'a subset \<Rightarrow> bool \<Rightarrow> int \<Rightarrow> error + 'a loader" where
  "DataLoader s dl b =
     (if b \<le> 0 then Inl ValueError
      else Inr \<lparr>source = s, bsize = nat b, drop_last = dl\<rparr>)"

function chunks :: "nat \<Rightarrow> 'x list \<Rightarrow> 'x list list" where
  "chunks n xs = (if n = 0 \<or> xs = [] then [] else take n xs # chunks n (drop n xs))"
  by pat_completeness auto
termination
  by (relation "measure (\<lambda>(n, xs). length xs)") auto

declare chunks.simps [simp del]

definition batch_indices :: "'a loader \<Rightarrow> nat list list" where
  "batch_indices ld =
     (let cs = chunks (bsize ld) [0..<length (indices (source ld))]
      in if drop_last ld then filter (\<lambda>c. length c = bsize ld) cs else cs)"

definition subset_get :: "'a subset \<Rightarrow> nat \<Rightarrow> error + 'a sample" where
  "subset_get s i =
     (if i < length (indices s) \<and> indices s ! i < length (samples (base s))
      then Inr (samples (base s) ! (indices s ! i))
      else Inl IndexError)"

fun gather :: "'a subset \<Rightarrow> nat list \<Rightarrow> error + 'a sample list" where
  "gather s [] = Inr []"
| "gather s (i # is) =
     (case subset_get s i of
        Inl e \<Rightarrow> Inl e
      | Inr x \<Rightarrow> (case gather s is of Inl e \<Rightarrow> Inl e | Inr xs \<Rightarrow> Inr (x # xs)))"

text \<open>The default collation stacks the images, which fails unless all have one shape.\<close>

definition collate :: "'a sample list \<Rightarrow> error + 'a batch" where
  "collate xs =
     (case xs of
        [] \<Rightarrow> Inl IndexError
      | x # ys \<Rightarrow>
          if list_all (\<lambda>y. img_shape y = img_shape x) ys
          then Inr \<lparr>n_imgs = length xs, n_chans = fst (img_shape x), items = xs\<rparr>
          else Inl RuntimeError)"

definition fetch :: "'a subset \<Rightarrow> nat list \<Rightarrow> error + 'a batch" where
  "fetch s is = (case gather s is of Inl e \<Rightarrow> Inl e | Inr xs \<Rightarrow> collate xs)"

text \<open>What one iteration over the loader yields, in order; a failing element raises.\<close>

definition batches_of :: "'a loader \<Rightarrow> (error + 'a batch) list" where
  "batches_of ld = map (fetch (source ld)) (batch_indices ld)"

subsection \<open>Library: writing a file, making a directory\<close>

text \<open>
  A file can be created or overwritten at a name unless the name is a directory, the
  operating system refuses, or the directory the name lies in does not exist.
\<close>

definition writable :: "('p, 'o) world \<Rightarrow> path \<Rightarrow> bool" where
  "writable w f \<longleftrightarrow>
     f \<notin> dirs w \<and> f \<notin> unwritable w \<and> (parent f = [] \<or> parent f \<in> dirs w)"

text \<open>
  \<open>torch.save(x, f)\<close> opens the file for writing, which raises an OSError when the file
  cannot be written; nothing is written then.
\<close>

definition torch_save ::
  "'p \<Rightarrow> path \<Rightarrow> ('p, 'o) world \<Rightarrow> (error + unit) \<times> ('p, 'o) world" where
  "torch_save x f w =
     (if writable w f then (Inr (), emit (Save f x) (w\<lparr>files := (files w)(f \<mapsto> x)\<rparr>))
      else (Inl OSError, w))"

text \<open>
  \<open>Path(d).mkdir(parents=True, exist_ok=True)\<close> makes sure that \<open>d\<close> and the
  directories above it exist. It raises an OSError when one of them is missing and cannot
  be made, because a file has that name or the operating system refuses.
\<close>

definition ancestors :: "path \<Rightarrow> path list" where
  "ancestors d = map (\<lambda>k. take k d) [1..<Suc (length d)]"

definition mkdir_parents ::
  "path \<Rightarrow> ('p, 'o) world \<Rightarrow> (error + unit) \<times> ('p, 'o) world" where
  "mkdir_parents d w =
     (if list_ex (\<lambda>p. p \<notin> dirs w \<and> (files w p \<noteq> None \<or> p \<in> unwritable w)) (ancestors d)
      then (Inl OSError, w)
      else (Inr (), emit (Mkdir d) (w\<lparr>dirs := dirs w \<union> set (ancestors d)\<rparr>)))"

subsection \<open>train_net\<close>

text \<open>Lines 41-44 and 46-49: the specialised dataset class, the generic one on failure.\<close>

definition try_dataset ::
  "('a, 'p, 'o) collab \<Rightarrow> path \<Rightarrow> path \<Rightarrow> real \<Rightarrow> ('p, 'o) world
     \<Rightarrow> (error + 'a dataset) \<times> ('p, 'o) world" where
  "try_dataset c dir_img dir_mask img_scale w =
     (case tick w of
        (Inl e, w1) \<Rightarrow> (Inl e, w1)
      | (Inr _, w1) \<Rightarrow>
          (let w2 = emit (Construct Carvana dir_img dir_mask) w1 in
           case CarvanaDataset c dir_img dir_mask img_scale of
             Inr xs \<Rightarrow> (Inr \<lparr>backed_by = Carvana, samples = xs\<rparr>, w2)
           | Inl e \<Rightarrow>
               if e = AssertionError \<or> e = RuntimeError then
                 (case tick w2 of
                    (Inl e', w3) \<Rightarrow> (Inl e', w3)
                  | (Inr _, w3) \<Rightarrow>
                      (let w4 = emit (Construct Basic dir_img dir_mask) w3 in
                       case BasicDataset c dir_img dir_mask img_scale of
                         Inr ys \<Rightarrow> (Inr \<lparr>backed_by = Basic, samples = ys\<rparr>, w4)
                       | Inl e'' \<Rightarrow> (Inl e'', w4)))
               else (Inl e, w2)))"

text \<open>
  Lines 93-115, the body of the loop over the batches. The loop state is
  \<open>(epoch_loss, pbar)\<close>: the accumulated loss and the progress counter.
\<close>

definition batch_step ::
  "('a, 'p, 'o) collab \<Rightarrow> nat \<Rightarrow> bool \<Rightarrow> error + 'a batch \<Rightarrow> real \<times> nat \<Rightarrow> ('p, 'o) world
     \<Rightarrow> (error + real \<times> nat) \<times> ('p, 'o) world" where
  "batch_step c n_channels amp_on x st w =
     (case x of
        Inl e \<Rightarrow> (Inl e, w)
      | Inr b \<Rightarrow>
          if n_chans b \<noteq> n_channels then (Inl AssertionError, w)
          else
            (case tick w of
               (Inl e, w1) \<Rightarrow> (Inl e, w1)
             | (Inr _, w1) \<Rightarrow>
                 (let w2 = emit (Forward (n_imgs b)) w1 in
                  case net_loss c (params w2) amp_on b of
                    Inl e \<Rightarrow> (Inl e, w2)
                  | Inr loss \<Rightarrow>
                      (case tick w2 of
                         (Inl e, w3) \<Rightarrow> (Inl e, w3)
                       | (Inr _, w3) \<Rightarrow>
                           (let (o', p') = optim_step c (opt_lr w3) amp_on (optim w3, params w3) b loss;
                                w4 = emit (OptimStep (opt_lr w3)) (w3\<lparr>params := p', optim := o'\<rparr>);
                                w5 = emit (Loss loss) w4
                            in (Inr (fst st + loss, snd st + n_imgs b), w5))))))"

fun batches_loop ::
  "('a, 'p, 'o) collab \<Rightarrow> nat \<Rightarrow> bool \<Rightarrow> (error + 'a batch) list \<Rightarrow> real \<times> nat \<Rightarrow> ('p, 'o) world
     \<Rightarrow> (error + real \<times> nat) \<times> ('p, 'o) world" where
  "batches_loop c n_channels amp_on [] st w = (Inr st, w)"
| "batches_loop c n_channels amp_on (x # xs) st w =
     (case batch_step c n_channels amp_on x st w of
        (Inl e, w') \<Rightarrow> (Inl e, w')
      | (Inr st', w') \<Rightarrow> batches_loop c n_channels amp_on xs st' w')"

text \<open>
  Lines 117-123: the global step advances and the mean loss goes to the tracker. The
  quotient \<open>epoch_loss / (n_train // batch_size)\<close> is evaluated before the tracker is
  called, and raises ZeroDivisionError when the divisor is zero.
\<close>

definition log_epoch ::
  "int \<Rightarrow> int \<Rightarrow> real \<Rightarrow> nat \<Rightarrow> nat \<Rightarrow> ('p, 'o) world \<Rightarrow> (error + nat) \<times> ('p, 'o) world" where
  "log_epoch n_train batch_size epoch_loss epoch global_step w =
     (if batch_size = 0 \<or> n_train div batch_size = 0 then (Inl ZeroDivisionError, w)
      else
        (case tick w of
           (Inl e, w1) \<Rightarrow> (Inl e, w1)
         | (Inr _, w1) \<Rightarrow>
             (Inr (global_step + 1),
              emit (LogLoss (epoch_loss / real_of_int (n_train div batch_size))
                      (global_step + 1) epoch) w1)))"

text \<open>Lines 146-149: the periodic checkpoint.\<close>

definition periodic_checkpoint ::
  "nat \<Rightarrow> ('p, 'o) world \<Rightarrow> (error + unit) \<times> ('p, 'o) world" where
  "periodic_checkpoint epoch w =
     (if epoch mod 2 = 0 then
        (case tick w of
           (Inl e, w1) \<Rightarrow> (Inl e, w1)
         | (Inr _, w1) \<Rightarrow>
             (case mkdir_parents dir_checkpoint w1 of
                (Inl e, w2) \<Rightarrow> (Inl e, w2)
              | (Inr _, w2) \<Rightarrow>
                  (case tick w2 of
                     (Inl e, w3) \<Rightarrow> (Inl e, w3)
                   | (Inr _, w3) \<Rightarrow> torch_save (params w3) (checkpoint_path epoch) w3)))
      else (Inr (), w))"

text \<open>
  Lines 89-149, the body of the loop over the epochs; it returns the new global step. The
  last \<open>tick\<close> stands for the end of the body, after the checkpoint if there was one.
\<close>

definition train_epoch ::
  "('a, 'p, 'o) collab \<Rightarrow> nat \<Rightarrow> bool \<Rightarrow> int \<Rightarrow> int \<Rightarrow> 'a loader \<Rightarrow> nat \<Rightarrow> nat \<Rightarrow> ('p, 'o) world
     \<Rightarrow> (error + nat) \<times> ('p, 'o) world" where
  "train_epoch c n_channels amp_on n_train batch_size train_loader epoch global_step w =
     (case batches_loop c n_channels amp_on (batches_of train_loader) (0, 0) w of
        (Inl e, w1) \<Rightarrow> (Inl e, w1)
      | (Inr st, w1) \<Rightarrow>
          (case log_epoch n_train batch_size (fst st) epoch global_step w1 of
             (Inl e, w2) \<Rightarrow> (Inl e, w2)
           | (Inr global_step', w2) \<Rightarrow>
               (case periodic_checkpoint epoch w2 of
                  (Inl e, w3) \<Rightarrow> (Inl e, w3)
                | (Inr _, w3) \<Rightarrow>
                    (case tick w3 of
                       (Inl e, w4) \<Rightarrow> (Inl e, w4)
                     | (Inr _, w4) \<Rightarrow> (Inr global_step', w4)))))"

fun epochs_loop ::
  "('a, 'p, 'o) collab \<Rightarrow> nat \<Rightarrow> bool \<Rightarrow> int \<Rightarrow> int \<Rightarrow> 'a loader \<Rightarrow> nat list \<Rightarrow> nat \<Rightarrow> ('p, 'o) world
     \<Rightarrow> (error + unit) \<times> ('p, 'o) world" where
  "epochs_loop c n_channels amp_on n_train batch_size train_loader [] global_step w = (Inr (), w)"
| "epochs_loop c n_channels amp_on n_train batch_size train_loader (epoch # es) global_step w =
     (case train_epoch c n_channels amp_on n_train batch_size train_loader epoch global_step w of
        (Inl e, w') \<Rightarrow> (Inl e, w')
      | (Inr global_step', w') \<Rightarrow>
          epochs_loop c n_channels amp_on n_train batch_size train_loader es global_step' w')"

text \<open>
  Lines 54 and 55: each split draws from a fresh generator seeded with 0, and asks for
  the whole dataset on one side and nothing on the other.
\<close>

definition split_train ::
  "('a, 'p, 'o) collab \<Rightarrow> 'a dataset \<Rightarrow> ('p, 'o) world
     \<Rightarrow> (error + 'a subset list) \<times> ('p, 'o) world" where
  "split_train c dataset_training w =
     random_split c dataset_training [length (samples dataset_training), 0]
       (Own (manual_seed c 0)) w"

definition split_val ::
  "('a, 'p, 'o) collab \<Rightarrow> 'a dataset \<Rightarrow> ('p, 'o) world
     \<Rightarrow> (error + 'a subset list) \<times> ('p, 'o) world" where
  "split_val c dataset_testing w =
     random_split c dataset_testing [0, length (samples dataset_testing)]
       (Own (manual_seed c 0)) w"

text \<open>
  Lines 52-60: the two splits and the two loaders. Unpacking the result of
  \<open>random_split\<close> into two names raises ValueError unless it has two elements.
\<close>

definition split_and_load ::
  "('a, 'p, 'o) collab \<Rightarrow> 'a dataset \<Rightarrow> 'a dataset \<Rightarrow> int \<Rightarrow> ('p, 'o) world
     \<Rightarrow> (error + ('a subset \<times> 'a subset) \<times> ('a loader \<times> 'a loader)) \<times> ('p, 'o) world" where
  "split_and_load c dataset_training dataset_testing batch_size w =
     (case split_train c dataset_training w of
        (Inl e, w1) \<Rightarrow> (Inl e, w1)
      | (Inr r1, w1) \<Rightarrow>
          (case r1 of
             [train_set, _] \<Rightarrow>
               (case split_val c dataset_testing w1 of
                  (Inl e, w2) \<Rightarrow> (Inl e, w2)
                | (Inr r2, w2) \<Rightarrow>
                    (case r2 of
                       [_, val_set] \<Rightarrow>
                         (case DataLoader train_set False batch_size of
                            Inl e \<Rightarrow> (Inl e, w2)
                          | Inr train_loader \<Rightarrow>
                              (case DataLoader val_set True batch_size of
                                 Inl e \<Rightarrow> (Inl e, w2)
                               | Inr val_loader \<Rightarrow>
                                   (Inr ((train_set, val_set), (train_loader, val_loader)), w2)))
                     | _ \<Rightarrow> (Inl ValueError, w2)))
           | _ \<Rightarrow> (Inl ValueError, w1)))"

text \<open>
  Lines 63-85: the tracker session is opened, then the optimizer is made with the
  configured learning rate and the scheduler, which has not been stepped, is attached.
\<close>

definition start_run ::
  "('a, 'p, 'o) collab \<Rightarrow> real \<Rightarrow> ('p, 'o) world \<Rightarrow> (error + unit) \<times> ('p, 'o) world" where
  "start_run c learning_rate w =
     (case tick w of
        (Inl e, w1) \<Rightarrow> (Inl e, w1)
      | (Inr _, w1) \<Rightarrow>
          (case tick (emit TrackerInit w1) of
             (Inl e, w2) \<Rightarrow> (Inl e, w2)
           | (Inr _, w2) \<Rightarrow>
               tick (w2\<lparr>optim := optim_init c (params w2) learning_rate,
                        opt_lr := learning_rate,
                        sched_last_epoch := 0\<rparr>)))"

text \<open>
  Lines 41-85, everything before the loop over the epochs: the datasets, the splits, the
  loaders, the tracker session, the optimizer and the scheduler. The result is
  \<open>n_train\<close> with the two loaders.
\<close>

definition prepare ::
  "('a, 'p, 'o) collab \<Rightarrow> int \<Rightarrow> real \<Rightarrow> real \<Rightarrow> ('p, 'o) world
     \<Rightarrow> (error + int \<times> 'a loader \<times> 'a loader) \<times> ('p, 'o) world" where
  "prepare c batch_size learning_rate img_scale w =
     (case try_dataset c dir_img_training dir_mask_training img_scale w of
        (Inl e, w1) \<Rightarrow> (Inl e, w1)
      | (Inr dataset_training, w1) \<Rightarrow>
          (case try_dataset c dir_img_testing dir_mask_testing img_scale w1 of
             (Inl e, w2) \<Rightarrow> (Inl e, w2)
           | (Inr dataset_testing, w2) \<Rightarrow>
               (case split_and_load c dataset_training dataset_testing batch_size w2 of
                  (Inl e, w3) \<Rightarrow> (Inl e, w3)
                | (Inr (sets, train_loader, val_loader), w3) \<Rightarrow>
                    (case start_run c learning_rate w3 of
                       (Inl e, w4) \<Rightarrow> (Inl e, w4)
                     | (Inr _, w4) \<Rightarrow>
                         (Inr (int (length (samples dataset_training)), train_loader, val_loader),
                          w4)))))"

text \<open>
  \<open>train_net\<close>; \<open>n_channels\<close> is \<open>net.n_channels\<close>. The arguments \<open>val_percent\<close>
  and \<open>save_checkpoint\<close> are only reported to the tracker. The evaluation round, which
  would step the scheduler, is commented out in the script (lines 127-144).
\<close>

definition train_net ::
  "('a, 'p, 'o) collab \<Rightarrow> nat \<Rightarrow> int \<Rightarrow> int \<Rightarrow> real \<Rightarrow> real \<Rightarrow> bool \<Rightarrow> real \<Rightarrow> bool \<Rightarrow> ('p, 'o) world
     \<Rightarrow> (error + unit) \<times> ('p, 'o) world" where
  "train_net c n_channels n_epochs batch_size learning_rate val_percent save_checkpoint img_scale
     amp_on w =
     (case prepare c batch_size learning_rate img_scale w of
        (Inl e, w1) \<Rightarrow> (Inl e, w1)
      | (Inr (n_train, train_loader, val_loader), w1) \<Rightarrow>
          epochs_loop c n_channels amp_on n_train batch_size train_loader [0..<nat n_epochs] 0 w1)"

subsection \<open>The main program\<close>

text \<open>
  The parsed command line. \<open>arg_load\<close> is \<open>None\<close> when \<open>--load\<close> is absent or empty.
\<close>

record args =
  arg_epochs :: int
  arg_batch_size :: int
  arg_lr :: real
  arg_load :: "path option"
  arg_scale :: real
  arg_val :: real
  arg_amp :: bool

text \<open>How the process ends: with an exit status, or with an uncaught exception.\<close>

datatype outcome = Exit int | Uncaught error

text \<open>Lines 185-187: the parameters are replaced by the contents of the file \<open>--load\<close> names.\<close>

definition load_weights :: "args \<Rightarrow> ('p, 'o) world \<Rightarrow> error + ('p, 'o) world" where
  "load_weights a w =
     (case arg_load a of
        None \<Rightarrow> Inr w
      | Some f \<Rightarrow> (case files w f of None \<Rightarrow> Inl OSError | Some ps \<Rightarrow> Inr (w\<lparr>params := ps\<rparr>)))"

text \<open>
  Lines 200-202, the handler of KeyboardInterrupt: the parameters are saved under the
  fixed name, then the process exits with status 0. The save is not guarded: when it
  raises, \<open>sys.exit(0)\<close> is not reached and the process ends with that exception.
\<close>

definition on_interrupt :: "('p, 'o) world \<Rightarrow> outcome \<times> ('p, 'o) world" where
  "on_interrupt w =
     (case torch_save (params w) interrupt_path w of
        (Inl e, w') \<Rightarrow> (Uncaught e, w')
      | (Inr _, w') \<Rightarrow> (Exit 0, w'))"

text \<open>
  Lines 169-202. The network is built with 3 input channels. Only KeyboardInterrupt is
  caught. A run that is not interrupted reaches the end of the script, which is exit
  status 0.
\<close>

definition main ::
  "('a, 'p, 'o) collab \<Rightarrow> args \<Rightarrow> ('p, 'o) world \<Rightarrow> outcome \<times> ('p, 'o) world" where
  "main c a w =
     (case load_weights a w of
        Inl e \<Rightarrow> (Uncaught e, w)
      | Inr w0 \<Rightarrow>
          (case train_net c 3 (arg_epochs a) (arg_batch_size a) (arg_lr a) (arg_val a / 100) True
                  (arg_scale a) (arg_amp a) w0 of
             (Inr _, w1) \<Rightarrow> (Exit 0, w1)
           | (Inl e, w1) \<Rightarrow>
               if e = KeyboardInterrupt then on_interrupt w1 else (Uncaught e, w1)))"

subsection \<open>Reading a trace\<close>

fun saves :: "'p event list \<Rightarrow> (path \<times> 'p) list" where
  "saves [] = []"
| "saves (Save f x # evs) = (f, x) # saves evs"
| "saves (_ # evs) = saves evs"

fun mkdirs :: "'p event list \<Rightarrow> path list" where
  "mkdirs [] = []"
| "mkdirs (Mkdir d # evs) = d # mkdirs evs"
| "mkdirs (_ # evs) = mkdirs evs"

fun logs :: "'p event list \<Rightarrow> (real \<times> nat \<times> nat) list" where
  "logs [] = []"
| "logs (LogLoss v s e # evs) = (v, s, e) # logs evs"
| "logs (_ # evs) = logs evs"

fun losses :: "'p event list \<Rightarrow> real list" where
  "losses [] = []"
| "losses (Loss l # evs) = l # losses evs"
| "losses (_ # evs) = losses evs"

fun forwards :: "'p event list \<Rightarrow> nat list" where
  "forwards [] = []"
| "forwards (Forward n # evs) = n # forwards evs"
| "forwards (_ # evs) = forwards evs"

fun steps :: "'p event list \<Rightarrow> real list" where
  "steps [] = []"
| "steps (OptimStep r # evs) = r # steps evs"
| "steps (_ # evs) = steps evs"

fun constructs :: "'p event list \<Rightarrow> (strategy \<times> path \<times> path) list" where
  "constructs [] = []"
| "constructs (Construct s i m # evs) = (s, i, m) # constructs evs"
| "constructs (_ # evs) = constructs evs"

text \<open>The events of a run that started in \<open>w\<close> and ended in \<open>w'\<close>.\<close>

definition since :: "('p, 'o) world \<Rightarrow> ('p, 'o) world \<Rightarrow> 'p event list" where
  "since w w' = drop (length (trace w)) (trace w')"

text \<open>The generator of permutations returns a permutation of the indices below \<open>n\<close>.\<close>

definition randperm_ok :: "('a, 'p, 'o) collab \<Rightarrow> bool" where
  "randperm_ok c = (\<forall>n g. distinct (randperm c n g) \<and> set (randperm c n g) = {0..<n})"

subsection \<open>Example collaborators and inputs\<close>

text \<open>
  A sample with \<open>ch\<close> channels of 2 by 2 pixels whose content is the number \<open>k\<close>; a
  collaborator record whose specialised dataset class rejects every directory, whose
  generic one finds the samples numbered from 0 with the given channel counts, whose
  permutation is the reversal rotated by the state of the generator, whose generator
  state advances by one at every draw, whose loss is the sum of the contents of the batch
  plus the parameter and whose optimizer step adds one to the parameter.
\<close>

definition smp :: "nat \<Rightarrow> nat \<Rightarrow> nat sample" where
  "smp ch k = \<lparr>img_shape = (ch, 2, 2), content = k\<rparr>"

definition ex_collab :: "nat list \<Rightarrow> (nat, int, unit) collab" where
  "ex_collab chs =
     \<lparr>CarvanaDataset = (\<lambda>i m s. Inl AssertionError),
      BasicDataset = (\<lambda>i m s. Inr (map (\<lambda>(k, ch). smp ch k) (enumerate 0 chs))),
      manual_seed = nat,
      randperm = (\<lambda>n g. rotate g (rev [0..<n])),
      rng_next = (\<lambda>n g. Suc g),
      optim_init = (\<lambda>p l. ()),
      net_loss = (\<lambda>p am b. Inr (real (sum_list (map content (items b))) + real_of_int p)),
      optim_step = (\<lambda>l am op b loss. (fst op, snd op + 1))\<rparr>"

definition ex_world :: "nat option \<Rightarrow> (int, unit) world" where
  "ex_world s =
     \<lparr>params = 0, optim = (), opt_lr = 0, sched_last_epoch = 7, files = Map.empty, dirs = {},
      unwritable = {}, default_rng = 1, trace = [], sigint = s\<rparr>"

definition ex_args :: "int \<Rightarrow> int \<Rightarrow> args" where
  "ex_args e b =
     \<lparr>arg_epochs = e, arg_batch_size = b, arg_lr = 1 / 100, arg_load = None, arg_scale = 1,
      arg_val = 10, arg_amp = False\<rparr>"

definition ex_dataset :: "nat list \<Rightarrow> nat dataset" where
  "ex_dataset chs =
     \<lparr>backed_by = Basic, samples = map (\<lambda>(k, ch). smp ch k) (enumerate 0 chs)\<rparr>"

text \<open>The training loader \<open>train_net\<close> builds over that dataset with batch size \<open>b\<close>.\<close>

definition ex_loader :: "nat list \<Rightarrow> nat \<Rightarrow> nat loader" where
  "ex_loader chs b =
     \<lparr>source = \<lparr>base = ex_dataset chs, indices = rev [0..<length chs]\<rparr>,
      bsize = b, drop_last = False\<rparr>"

definition ex_val_loader :: "nat list \<Rightarrow> nat \<Rightarrow> nat loader" where
  "ex_val_loader chs b =
     \<lparr>source = \<lparr>base = ex_dataset chs, indices = rev [0..<length chs]\<rparr>,
      bsize = b, drop_last = True\<rparr>"

text \<open>The world \<open>ex_world s\<close> after the set-up of \<open>train_net\<close> with learning rate 1/100.\<close>

definition ex_ready :: "nat option \<Rightarrow> (int, unit) world" where
  "ex_ready s =
     \<lparr>params = 0, optim = (), opt_lr = 1 / 100, sched_last_epoch = 0, files = Map.empty,
      dirs = {}, unwritable = {}, default_rng = 1,
      trace = [Construct Carvana dir_img_training dir_mask_training,
               Construct Basic dir_img_training dir_mask_training,
               Construct Carvana dir_img_testing dir_mask_testing,
               Construct Basic dir_img_testing dir_mask_testing,
               TrackerInit],
      sigint = s\<rparr>"

text \<open>
  A relation between the worlds before and after a part of the training loop, used to
  carry facts through the loops: the learning rate and the scheduler are untouched, the
  trace has grown, every optimizer step used the learning rate, every file saved is a
  periodic checkpoint, no dataset was constructed and no directory made but the
  checkpoint directory, and the default generator and the names that cannot be written
  are as before.
\<close>

definition loop_frame :: "('p, 'o) world \<Rightarrow> ('p, 'o) world \<Rightarrow> bool" where
  "loop_frame w w' \<longleftrightarrow>
     opt_lr w' = opt_lr w \<and> sched_last_epoch w' = sched_last_epoch w
     \<and> unwritable w' = unwritable w \<and> default_rng w' = default_rng w
     \<and> dirs w \<subseteq> dirs w' \<and> dirs w' \<subseteq> insert dir_checkpoint (dirs w)
     \<and> (\<exists>evs. trace w' = trace w @ evs \<and> set (steps evs) \<subseteq> {opt_lr w}
          \<and> fst ` set (saves evs) \<subseteq> range checkpoint_path \<and> constructs evs = []
          \<and> set (mkdirs evs) \<subseteq> {dir_checkpoint})
     \<and> (\<forall>f. f \<notin> range checkpoint_path \<longrightarrow> files w' f = files w f)"

text \<open>Reading a decimal rendering back, to show that the file names tell the epochs apart.\<close>

definition digit_value :: "char \<Rightarrow> nat" where
  "digit_value ch = (if ch = CHR ''1'' then 1 else if ch = CHR ''2'' then 2
     else if ch = CHR ''3'' then 3 else if ch = CHR ''4'' then 4 else if ch = CHR ''5'' then 5
     else if ch = CHR ''6'' then 6 else if ch = CHR ''7'' then 7 else if ch = CHR ''8'' then 8
     else if ch = CHR ''9'' then 9 else 0)"

definition nat_of_str :: "string \<Rightarrow> nat" where
  "nat_of_str s = foldl (\<lambda>a ch. 10 * a + digit_value ch) 0 s"

text \<open>
  A signal that was pending in \<open>w\<close> and is no longer pending in \<open>w'\<close> was delivered in
  between; \<open>delivers\<close> says that the result is then KeyboardInterrupt.
\<close>

definition delivers :: "('p, 'o) world \<Rightarrow> error + 'x \<Rightarrow> ('p, 'o) world \<Rightarrow> bool" where
  "delivers w r w' \<longleftrightarrow> (sigint w \<noteq> None \<and> sigint w' = None \<longrightarrow> r = Inl KeyboardInterrupt)"

section \<open>Properties\<close>

subsection \<open>Traces, signals and the frame of a batch step\<close>

lemma saves_append: "saves (xs @ ys) = saves xs @ saves ys"
  by (induction xs rule: saves.induct) simp_all
lemma mkdirs_append: "mkdirs (xs @ ys) = mkdirs xs @ mkdirs ys"
  by (induction xs rule: mkdirs.induct) simp_all
lemma logs_append: "logs (xs @ ys) = logs xs @ logs ys"
  by (induction xs rule: logs.induct) simp_all
lemma losses_append: "losses (xs @ ys) = losses xs @ losses ys"
  by (induction xs rule: losses.induct) simp_all
lemma forwards_append: "forwards (xs @ ys) = forwards xs @ forwards ys"
  by (induction xs rule: forwards.induct) simp_all
lemma steps_append: "steps (xs @ ys) = steps xs @ steps ys"
  by (induction xs rule: steps.induct) simp_all
lemma constructs_append: "constructs (xs @ ys) = constructs xs @ constructs ys"
  by (induction xs rule: constructs.induct) simp_all

lemmas proj_append = saves_append mkdirs_append logs_append losses_append forwards_append
  steps_append constructs_append

lemma tick_world: "tick w = (r, w1) \<Longrightarrow> \<exists>s. w1 = w\<lparr>sigint := s\<rparr>"
proof (cases "sigint w")
  case None
  assume t: "tick w = (r, w1)"
  have "w\<lparr>sigint := sigint w\<rparr> = w" by simp
  with None have "w = w\<lparr>sigint := None\<rparr>" by simp
  moreover from t None have "w1 = w" by (simp add: tick_def)
  ultimately show ?thesis by blast
next
  case (Some k)
  assume "tick w = (r, w1)"
  with Some show ?thesis by (cases k) (auto simp: tick_def)
qed

lemma tick_quiet: "sigint w = None \<Longrightarrow> tick w = (Inr (), w)"
  by (simp add: tick_def)

lemma tick_error: "tick w = (Inl e, w1) \<Longrightarrow> e = KeyboardInterrupt"
  by (auto simp: tick_def split: option.splits nat.splits)

lemma emit_fields [simp]:
  "params (emit ev w) = params w" "optim (emit ev w) = optim w" "opt_lr (emit ev w) = opt_lr w"
  "sched_last_epoch (emit ev w) = sched_last_epoch w" "files (emit ev w) = files w"
  "dirs (emit ev w) = dirs w" "trace (emit ev w) = trace w @ [ev]" "sigint (emit ev w) = sigint w"
  "unwritable (emit ev w) = unwritable w" "default_rng (emit ev w) = default_rng w"
  by (simp_all add: emit_def)

lemma batch_step_frame:
  assumes "batch_step c nch am x st w = (r, w')"
  shows "files w' = files w \<and> dirs w' = dirs w \<and> opt_lr w' = opt_lr w
     \<and> sched_last_epoch w' = sched_last_epoch w
     \<and> unwritable w' = unwritable w \<and> default_rng w' = default_rng w
     \<and> saves (trace w') = saves (trace w) \<and> mkdirs (trace w') = mkdirs (trace w)
     \<and> logs (trace w') = logs (trace w) \<and> constructs (trace w') = constructs (trace w)
     \<and> length (trace w) \<le> length (trace w')"
  using assms
  by (auto simp: batch_step_def Let_def proj_append split: sum.splits prod.splits if_splits
      dest!: tick_world)

lemma batch_step_ok:
  assumes "batch_step c nch am x st w = (Inr st', w')"
  shows "\<exists>b l. x = Inr b \<and> n_chans b = nch \<and> st' = (fst st + l, snd st + n_imgs b)
     \<and> losses (trace w') = losses (trace w) @ [l]
     \<and> forwards (trace w') = forwards (trace w) @ [n_imgs b]
     \<and> steps (trace w') = steps (trace w) @ [opt_lr w]"
  using assms
  by (auto simp: batch_step_def Let_def proj_append split: sum.splits prod.splits if_splits
      dest!: tick_world)

lemma batches_loop_append:
  "batches_loop c nch am (xs @ ys) st w =
     (case batches_loop c nch am xs st w of
        (Inl e, w') \<Rightarrow> (Inl e, w')
      | (Inr st', w') \<Rightarrow> batches_loop c nch am ys st' w')"
  by (induction xs arbitrary: st w) (auto split: prod.splits sum.splits)

lemma batches_loop_frame:
  "batches_loop c nch am xs st w = (r, w') \<Longrightarrow>
     files w' = files w \<and> dirs w' = dirs w \<and> opt_lr w' = opt_lr w
     \<and> sched_last_epoch w' = sched_last_epoch w
     \<and> unwritable w' = unwritable w \<and> default_rng w' = default_rng w
     \<and> saves (trace w') = saves (trace w) \<and> mkdirs (trace w') = mkdirs (trace w)
     \<and> logs (trace w') = logs (trace w) \<and> constructs (trace w') = constructs (trace w)
     \<and> length (trace w) \<le> length (trace w')"
proof (induction xs arbitrary: st w)
  case Nil
  then show ?case by simp
next
  case (Cons x xs)
  obtain r1 w1 where s1: "batch_step c nch am x st w = (r1, w1)"
    by (cases "batch_step c nch am x st w")
  note f1 = batch_step_frame [OF s1]
  show ?case
  proof (cases r1)
    case (Inl e)
    with Cons.prems s1 have "w' = w1" by simp
    with f1 show ?thesis by simp
  next
    case (Inr st1)
    with Cons.prems s1 have "batches_loop c nch am xs st1 w1 = (r, w')" by simp
    from Cons.IH [OF this] f1 show ?thesis by simp
  qed
qed

lemma batches_loop_ok_forwards:
  "batches_loop c nch am xs st w = (Inr st', w') \<Longrightarrow>
     length (forwards (trace w')) = length (forwards (trace w)) + length xs"
proof (induction xs arbitrary: st w)
  case Nil
  then show ?case by simp
next
  case (Cons x xs)
  from Cons.prems obtain st1 w1 where
    s1: "batch_step c nch am x st w = (Inr st1, w1)" and
    s2: "batches_loop c nch am xs st1 w1 = (Inr st', w')"
    by (auto split: prod.splits sum.splits)
  from batch_step_ok [OF s1] have "length (forwards (trace w1)) = length (forwards (trace w)) + 1"
    by auto
  with Cons.IH [OF s2] show ?case by simp
qed

lemma batch_step_mismatch:
  "n_chans b \<noteq> nch \<Longrightarrow> batch_step c nch am (Inr b) st w = (Inl AssertionError, w)"
  by (simp add: batch_step_def)

subsection \<open>C1: the channel check\<close>

text \<open>
  C1. Whatever the position of a batch in the epoch, and whatever the epoch, a batch whose
  channel count differs from the network's aborts the run with AssertionError: the loop
  over the epochs ends at once, in the very world the batches before it left behind, so
  nothing was computed on the offending batch (one forward pass per earlier batch, none
  for this one).
\<close>

theorem channel_mismatch_aborts:
  assumes "batches_of ld = pre @ Inr b # post"
    and "n_chans b \<noteq> nch"
    and "batches_loop c nch am pre (0, 0) w = (Inr st, w1)"
  shows "epochs_loop c nch am n_train bs ld (epoch # es) gs w = (Inl AssertionError, w1)
     \<and> length (forwards (trace w1)) = length (forwards (trace w)) + length pre"
proof -
  have "batches_loop c nch am (batches_of ld) (0, 0) w = (Inl AssertionError, w1)"
    using assms by (simp add: batches_loop_append batch_step_mismatch)
  then have "train_epoch c nch am n_train bs ld epoch gs w = (Inl AssertionError, w1)"
    by (simp add: train_epoch_def)
  then show ?thesis
    using batches_loop_ok_forwards [OF assms(3)] by simp
qed

lemma upt5: "[0..<5] = [0, 1, 2, 3, 4]"
  by (simp add: upt_rec)

lemma ex_batches_13333:
  "batches_of (ex_loader [1, 3, 3, 3, 3] 2) =
     [Inr \<lparr>n_imgs = 2, n_chans = 3, items = [smp 3 4, smp 3 3]\<rparr>,
      Inr \<lparr>n_imgs = 2, n_chans = 3, items = [smp 3 2, smp 3 1]\<rparr>,
      Inr \<lparr>n_imgs = 1, n_chans = 1, items = [smp 1 0]\<rparr>]"
  by (simp add: batches_of_def ex_loader_def batch_indices_def upt5 chunks.simps fetch_def
      subset_get_def ex_dataset_def collate_def smp_def)

theorem channel_mismatch_aborts_witness:
  "fst (epochs_loop (ex_collab [1, 3, 3, 3, 3]) 3 False 5 2 (ex_loader [1, 3, 3, 3, 3] 2) [0, 1, 2] 0
     (ex_world None)) = Inl AssertionError \<and>
   forwards (trace (snd (epochs_loop (ex_collab [1, 3, 3, 3, 3]) 3 False 5 2 (ex_loader [1, 3, 3, 3, 3] 2) [0, 1, 2] 0
     (ex_world None)))) = [2, 2]"
proof -
  let ?c = "ex_collab [1, 3, 3, 3, 3]"
  let ?b1 = "\<lparr>n_imgs = 2, n_chans = 3, items = [smp 3 4, smp 3 3]\<rparr>"
  let ?b2 = "\<lparr>n_imgs = 2, n_chans = 3, items = [smp 3 2, smp 3 1]\<rparr>"
  let ?b3 = "\<lparr>n_imgs = 1, n_chans = 1, items = [smp 1 0]\<rparr>"
  have h1: "batches_of (ex_loader [1, 3, 3, 3, 3] 2) = [Inr ?b1, Inr ?b2] @ Inr ?b3 # []"
    using ex_batches_13333 by simp
  have h2: "n_chans ?b3 \<noteq> 3" by simp
  obtain r w1 where h: "batches_loop ?c 3 False [Inr ?b1, Inr ?b2] (0, 0) (ex_world None) = (r, w1)"
    by (cases "batches_loop ?c 3 False [Inr ?b1, Inr ?b2] (0, 0) (ex_world None)")
  then have "r = Inr (11, 4) \<and> forwards (trace w1) = [2, 2]"
    by (auto simp add: batch_step_def ex_world_def ex_collab_def tick_def emit_def smp_def)
  with h have h3: "batches_loop ?c 3 False [Inr ?b1, Inr ?b2] (0, 0) (ex_world None) = (Inr (11, 4), w1)"
     and f: "forwards (trace w1) = [2, 2]"
    by simp_all
  from channel_mismatch_aborts [OF h1 h2 h3, of 5 2 0 "[1, 2]" 0] f show ?thesis
    by simp
qed

subsection \<open>One epoch\<close>

lemma since_append: "trace w' = trace w @ evs \<Longrightarrow> since w w' = evs"
  by (simp add: since_def)

lemma batch_step_events:
  assumes "batch_step c nch am x st w = (Inr st', w')"
  shows "\<exists>b l. x = Inr b \<and> n_chans b = nch \<and> st' = (fst st + l, snd st + n_imgs b)
     \<and> trace w' = trace w @ [Forward (n_imgs b), OptimStep (opt_lr w), Loss l]"
  using assms
  by (auto simp: batch_step_def Let_def split: sum.splits prod.splits if_splits
      dest!: tick_world)

lemma batch_step_grows:
  assumes "batch_step c nch am x st w = (r, w')"
  shows "\<exists>evs. trace w' = trace w @ evs \<and> set (steps evs) \<subseteq> {opt_lr w}"
  using assms
  by (auto simp: batch_step_def Let_def split: sum.splits prod.splits if_splits
      dest!: tick_world)

lemma batches_loop_grows:
  "batches_loop c nch am xs st w = (r, w') \<Longrightarrow>
     \<exists>evs. trace w' = trace w @ evs \<and> set (steps evs) \<subseteq> {opt_lr w}"
proof (induction xs arbitrary: st w)
  case Nil
  then show ?case by simp
next
  case (Cons x xs)
  obtain r1 w1 where s1: "batch_step c nch am x st w = (r1, w1)"
    by (cases "batch_step c nch am x st w")
  from batch_step_grows [OF s1] obtain e1 where
    e1: "trace w1 = trace w @ e1" "set (steps e1) \<subseteq> {opt_lr w}" by blast
  from batch_step_frame [OF s1] have lr1: "opt_lr w1 = opt_lr w" by simp
  show ?case
  proof (cases r1)
    case (Inl e)
    with Cons.prems s1 have "w' = w1" by simp
    with e1 show ?thesis by blast
  next
    case (Inr st1)
    with Cons.prems s1 have "batches_loop c nch am xs st1 w1 = (r, w')" by simp
    from Cons.IH [OF this] obtain e2 where
      e2: "trace w' = trace w1 @ e2" "set (steps e2) \<subseteq> {opt_lr w1}" by blast
    from e1 e2 lr1 have "trace w' = trace w @ (e1 @ e2) \<and> set (steps (e1 @ e2)) \<subseteq> {opt_lr w}"
      by (simp add: steps_append)
    then show ?thesis by blast
  qed
qed

lemma batches_loop_events:
  "batches_loop c nch am xs st w = (Inr st', w') \<Longrightarrow>
     \<exists>evs. trace w' = trace w @ evs \<and> fst st' = fst st + sum_list (losses evs)
       \<and> length (losses evs) = length xs \<and> steps evs = replicate (length xs) (opt_lr w)"
proof (induction xs arbitrary: st w)
  case Nil
  then show ?case by simp
next
  case (Cons x xs)
  from Cons.prems obtain st1 w1 where
    s1: "batch_step c nch am x st w = (Inr st1, w1)" and
    s2: "batches_loop c nch am xs st1 w1 = (Inr st', w')"
    by (auto split: prod.splits sum.splits)
  from batch_step_events [OF s1] obtain l k n where
    b: "st1 = (fst st + l, k)"
       "trace w1 = trace w @ [Forward n, OptimStep (opt_lr w), Loss l]"
    by auto
  from batch_step_frame [OF s1] have lr1: "opt_lr w1 = opt_lr w" by simp
  from Cons.IH [OF s2] obtain e2 where
    e2: "trace w' = trace w1 @ e2" "fst st' = fst st1 + sum_list (losses e2)"
        "length (losses e2) = length xs" "steps e2 = replicate (length xs) (opt_lr w1)"
    by blast
  let ?evs = "[Forward n, OptimStep (opt_lr w), Loss l] @ e2"
  from b e2 lr1 have "trace w' = trace w @ ?evs \<and> fst st' = fst st + sum_list (losses ?evs)
       \<and> length (losses ?evs) = length (x # xs) \<and> steps ?evs = replicate (length (x # xs)) (opt_lr w)"
    by simp
  then show ?case by blast
qed

lemma log_epoch_ok:
  assumes "log_epoch n_train bs el epoch gs w = (Inr gs', w')"
  shows "trace w' = trace w @ [LogLoss (el / real_of_int (n_train div bs)) (gs + 1) epoch]
     \<and> gs' = gs + 1 \<and> n_train div bs \<noteq> 0 \<and> files w' = files w \<and> dirs w' = dirs w
     \<and> params w' = params w \<and> opt_lr w' = opt_lr w \<and> sched_last_epoch w' = sched_last_epoch w"
  using assms
  by (auto simp: log_epoch_def split: sum.splits prod.splits if_splits dest!: tick_world)

lemma ancestors_dir_checkpoint: "ancestors dir_checkpoint = [dir_checkpoint]"
  by (simp add: ancestors_def dir_checkpoint_def)

lemma mkdir_checkpoint:
  "mkdir_parents dir_checkpoint w =
     (if dir_checkpoint \<notin> dirs w
         \<and> (files w dir_checkpoint \<noteq> None \<or> dir_checkpoint \<in> unwritable w)
      then (Inl OSError, w)
      else (Inr (), emit (Mkdir dir_checkpoint) (w\<lparr>dirs := insert dir_checkpoint (dirs w)\<rparr>)))"
  by (simp add: mkdir_parents_def ancestors_dir_checkpoint)

lemma mkdir_checkpoint_ok:
  "mkdir_parents dir_checkpoint w = (Inr u, w') \<Longrightarrow>
     w' = emit (Mkdir dir_checkpoint) (w\<lparr>dirs := insert dir_checkpoint (dirs w)\<rparr>)"
  by (simp add: mkdir_checkpoint split: if_splits)

lemma mkdir_checkpoint_fails:
  "mkdir_parents dir_checkpoint w = (Inl e, w') \<Longrightarrow> w' = w \<and> e = OSError"
  by (simp add: mkdir_checkpoint split: if_splits)

lemma torch_save_ok:
  "torch_save x f w = (Inr u, w') \<Longrightarrow>
     writable w f \<and> w' = emit (Save f x) (w\<lparr>files := (files w)(f \<mapsto> x)\<rparr>)"
  by (simp add: torch_save_def split: if_splits)

lemma torch_save_fails:
  "torch_save x f w = (Inl e, w') \<Longrightarrow> \<not> writable w f \<and> w' = w \<and> e = OSError"
  by (simp add: torch_save_def split: if_splits)

lemma parent_checkpoint_path: "parent (checkpoint_path epoch) = dir_checkpoint"
  by (simp add: parent_def checkpoint_path_def)

lemma checkpoint_path_not_dir: "checkpoint_path epoch \<noteq> dir_checkpoint"
  by (simp add: checkpoint_path_def)

lemma dir_checkpoint_not_root: "dir_checkpoint \<noteq> []"
  by (simp add: dir_checkpoint_def)

lemma periodic_checkpoint_ok:
  assumes "periodic_checkpoint epoch w = (Inr u, w')"
  shows "trace w' = trace w @ (if epoch mod 2 = 0
              then [Mkdir dir_checkpoint, Save (checkpoint_path epoch) (params w')] else [])
     \<and> files w' = (if epoch mod 2 = 0 then (files w)(checkpoint_path epoch \<mapsto> params w')
                     else files w)
     \<and> dirs w' = (if epoch mod 2 = 0 then insert dir_checkpoint (dirs w) else dirs w)
     \<and> params w' = params w \<and> opt_lr w' = opt_lr w \<and> sched_last_epoch w' = sched_last_epoch w"
proof (cases "epoch mod 2 = 0")
  case False
  with assms show ?thesis by (simp add: periodic_checkpoint_def)
next
  case True
  with assms obtain u1 w1 u2 w2 u3 w3 where
    t1: "tick w = (Inr u1, w1)" and
    m: "mkdir_parents dir_checkpoint w1 = (Inr u2, w2)" and
    t3: "tick w2 = (Inr u3, w3)" and
    s: "torch_save (params w3) (checkpoint_path epoch) w3 = (Inr u, w')"
    by (auto simp: periodic_checkpoint_def split: sum.splits prod.splits)
  from tick_world [OF t1] obtain s1 where w1: "w1 = w\<lparr>sigint := s1\<rparr>" by blast
  from mkdir_checkpoint_ok [OF m] have
    w2: "w2 = emit (Mkdir dir_checkpoint) (w1\<lparr>dirs := insert dir_checkpoint (dirs w1)\<rparr>)" .
  from tick_world [OF t3] obtain s3 where w3: "w3 = w2\<lparr>sigint := s3\<rparr>" by blast
  from torch_save_ok [OF s] have
    w': "w' = emit (Save (checkpoint_path epoch) (params w3))
                (w3\<lparr>files := (files w3)(checkpoint_path epoch \<mapsto> params w3)\<rparr>)"
    by simp
  from True w1 w2 w3 w' show ?thesis by simp
qed

lemma train_epoch_ok:
  assumes "train_epoch c nch am n_train bs ld epoch gs w = (Inr gs', w')"
  shows "\<exists>evs. trace w' = trace w @ evs
           @ [LogLoss (sum_list (losses evs) / real_of_int (n_train div bs)) (gs + 1) epoch]
           @ (if epoch mod 2 = 0
              then [Mkdir dir_checkpoint, Save (checkpoint_path epoch) (params w')] else [])
       \<and> logs evs = [] \<and> saves evs = [] \<and> mkdirs evs = []
       \<and> length (losses evs) = length (batches_of ld)
       \<and> gs' = gs + 1 \<and> n_train div bs \<noteq> 0
       \<and> files w' = (if epoch mod 2 = 0 then (files w)(checkpoint_path epoch \<mapsto> params w')
                     else files w)
       \<and> dirs w' = (if epoch mod 2 = 0 then insert dir_checkpoint (dirs w) else dirs w)"
proof -
  from assms obtain st w1 w2 u w3 u4 where
    l: "batches_loop c nch am (batches_of ld) (0, 0) w = (Inr st, w1)" and
    g: "log_epoch n_train bs (fst st) epoch gs w1 = (Inr gs', w2)" and
    k: "periodic_checkpoint epoch w2 = (Inr u, w3)" and
    t: "tick w3 = (Inr u4, w')"
    by (auto simp: train_epoch_def split: sum.splits prod.splits)
  from tick_world [OF t] obtain s where w': "w' = w3\<lparr>sigint := s\<rparr>" by blast
  note fr = batches_loop_frame [OF l]
  from batches_loop_events [OF l] obtain evs where
    evs: "trace w1 = trace w @ evs" "fst st = sum_list (losses evs)"
         "length (losses evs) = length (batches_of ld)"
    by auto
  from fr evs(1) have q: "logs evs = [] \<and> saves evs = [] \<and> mkdirs evs = []"
    by (simp add: proj_append)
  note lg = log_epoch_ok [OF g]
  note pc = periodic_checkpoint_ok [OF k]
  from evs lg pc w' have
    "trace w' = trace w @ evs
           @ [LogLoss (sum_list (losses evs) / real_of_int (n_train div bs)) (gs + 1) epoch]
           @ (if epoch mod 2 = 0
              then [Mkdir dir_checkpoint, Save (checkpoint_path epoch) (params w')] else [])"
    by simp
  moreover from fr lg pc w' have
    "gs' = gs + 1 \<and> n_train div bs \<noteq> 0
       \<and> files w' = (if epoch mod 2 = 0 then (files w)(checkpoint_path epoch \<mapsto> params w')
                     else files w)
       \<and> dirs w' = (if epoch mod 2 = 0 then insert dir_checkpoint (dirs w) else dirs w)"
    by simp
  ultimately show ?thesis using q evs(3) by blast
qed

lemma ex_batches_33333:
  "batches_of (ex_loader [3, 3, 3, 3, 3] 2) =
     [Inr \<lparr>n_imgs = 2, n_chans = 3, items = [smp 3 4, smp 3 3]\<rparr>,
      Inr \<lparr>n_imgs = 2, n_chans = 3, items = [smp 3 2, smp 3 1]\<rparr>,
      Inr \<lparr>n_imgs = 1, n_chans = 3, items = [smp 3 0]\<rparr>]"
  by (simp add: batches_of_def ex_loader_def batch_indices_def upt5 chunks.simps fetch_def
      subset_get_def ex_dataset_def collate_def smp_def)

lemmas ex_eval = batch_step_def log_epoch_def periodic_checkpoint_def train_epoch_def
  mkdir_checkpoint torch_save_def writable_def parent_checkpoint_path checkpoint_path_not_dir
  dir_checkpoint_not_root ex_world_def ex_collab_def tick_def emit_def smp_def Let_def

lemma ex_epoch0:
  "train_epoch (ex_collab [3, 3, 3, 3, 3]) 3 False 5 2 (ex_loader [3, 3, 3, 3, 3] 2) 0 0
     (ex_world None) =
   (Inr 1,
    (ex_world None)\<lparr>params := 3,
      files := [checkpoint_path 0 \<mapsto> 3], dirs := {dir_checkpoint},
      trace := [Forward 2, OptimStep 0, Loss 7, Forward 2, OptimStep 0, Loss 4,
                Forward 1, OptimStep 0, Loss 2, LogLoss (13 / 2) 1 0,
                Mkdir dir_checkpoint, Save (checkpoint_path 0) 3]\<rparr>)"
  by (simp add: ex_batches_33333 ex_eval)

lemma ex_epoch1:
  "train_epoch (ex_collab [3, 3, 3, 3, 3]) 3 False 5 2 (ex_loader [3, 3, 3, 3, 3] 2) 1 1
     (ex_world None) =
   (Inr 2,
    (ex_world None)\<lparr>params := 3,
      trace := [Forward 2, OptimStep 0, Loss 7, Forward 2, OptimStep 0, Loss 4,
                Forward 1, OptimStep 0, Loss 2, LogLoss (13 / 2) 2 1]\<rparr>)"
  by (simp add: ex_batches_33333 ex_eval)

subsection \<open>C2: the loss that is logged\<close>

text \<open>
  C2. An epoch that completes sends exactly one entry to the tracker, tagged with the
  advanced global step and the epoch index; its value is the sum of the losses of the
  epoch's batches divided by \<open>n_train div batch_size\<close>, the number of complete
  batches. The epoch read one loss per batch the loader yielded, and that count is not
  the divisor: with 5 samples in batches of 2 there are 3 losses and the divisor is 2.
\<close>

theorem epoch_loss_logged:
  assumes "train_epoch c nch am n_train bs ld epoch gs w = (Inr gs', w')"
  shows "logs (since w w') =
           [(sum_list (losses (since w w')) / real_of_int (n_train div bs), gs + 1, epoch)]
     \<and> length (losses (since w w')) = length (batches_of ld)
     \<and> n_train div bs \<noteq> 0"
proof -
  from train_epoch_ok [OF assms] obtain evs where
    t: "trace w' = trace w @ (evs
           @ [LogLoss (sum_list (losses evs) / real_of_int (n_train div bs)) (gs + 1) epoch]
           @ (if epoch mod 2 = 0
              then [Mkdir dir_checkpoint, Save (checkpoint_path epoch) (params w')] else []))"
    and q: "logs evs = []" "length (losses evs) = length (batches_of ld)" "n_train div bs \<noteq> 0"
    by auto
  from since_append [OF t] q show ?thesis
    by (simp add: proj_append)
qed

theorem epoch_loss_logged_witness:
  "logs (since (ex_world None)
      (snd (train_epoch (ex_collab [3, 3, 3, 3, 3]) 3 False 5 2 (ex_loader [3, 3, 3, 3, 3] 2) 0 0
         (ex_world None)))) = [((7 + 4 + 2) / 2, 1, 0)]
   \<and> length (batches_of (ex_loader [3, 3, 3, 3, 3] 2)) = 3
   \<and> length (samples (ex_dataset [3, 3, 3, 3, 3])) = 5"
  unfolding ex_epoch0
  using epoch_loss_logged [OF ex_epoch0]
  by (simp add: ex_batches_33333 since_def ex_world_def ex_dataset_def)

subsection \<open>C3: the periodic checkpoint\<close>

lemma digit_value_digit: "d < 10 \<Longrightarrow> digit_value (digit d) = d"
proof -
  assume "d < 10"
  then have "d \<in> {0, 1, 2, 3, 4, 5, 6, 7, 8, 9}" by auto
  then show ?thesis
    by (auto simp: digit_def digit_value_def)
qed

lemma nat_of_str_nat: "nat_of_str (str_nat n) = n"
proof (induction n rule: str_nat.induct)
  case (1 n)
  show ?case
  proof (cases "n < 10")
    case True
    then show ?thesis
      by (subst str_nat.simps) (simp add: nat_of_str_def digit_value_digit)
  next
    case False
    with 1 have ih: "nat_of_str (str_nat (n div 10)) = n div 10" by simp
    have "nat_of_str (str_nat n) = 10 * nat_of_str (str_nat (n div 10)) + digit_value (digit (n mod 10))"
      using False by (subst str_nat.simps) (simp add: nat_of_str_def)
    with ih show ?thesis
      by (simp add: digit_value_digit)
  qed
qed

lemma str_nat_inj: "str_nat m = str_nat n \<Longrightarrow> m = n"
  by (metis nat_of_str_nat)

lemma checkpoint_path_inj: "checkpoint_path e1 = checkpoint_path e2 \<Longrightarrow> e1 = e2"
  by (auto simp: checkpoint_path_def dest: str_nat_inj)

text \<open>
  C3. An epoch that completes writes a checkpoint exactly when its index is even: then
  the last two operations of the epoch create the checkpoint directory and save the
  current parameters under the name built from the epoch number, and these are the only
  directory and file operations of the epoch; when the index is odd the epoch saves
  nothing and the files and directories are as before. No other epoch has that file name.
\<close>

theorem checkpoint_iff_even:
  assumes "train_epoch c nch am n_train bs ld epoch gs w = (Inr gs', w')"
  shows "saves (since w w') = (if even epoch then [(checkpoint_path epoch, params w')] else [])
     \<and> mkdirs (since w w') = (if even epoch then [dir_checkpoint] else [])
     \<and> files w' = (if even epoch then (files w)(checkpoint_path epoch \<mapsto> params w') else files w)
     \<and> dirs w' = (if even epoch then insert dir_checkpoint (dirs w) else dirs w)
     \<and> (even epoch \<longrightarrow>
          drop (length (since w w') - 2) (since w w') =
            [Mkdir dir_checkpoint, Save (checkpoint_path epoch) (params w')])
     \<and> (\<forall>e. checkpoint_path e = checkpoint_path epoch \<longrightarrow> e = epoch)"
proof -
  from train_epoch_ok [OF assms] obtain evs where
    t: "trace w' = trace w @ (evs
           @ [LogLoss (sum_list (losses evs) / real_of_int (n_train div bs)) (gs + 1) epoch]
           @ (if epoch mod 2 = 0
              then [Mkdir dir_checkpoint, Save (checkpoint_path epoch) (params w')] else []))"
    and q: "saves evs = []" "mkdirs evs = []"
      "files w' = (if epoch mod 2 = 0 then (files w)(checkpoint_path epoch \<mapsto> params w')
                     else files w)"
      "dirs w' = (if epoch mod 2 = 0 then insert dir_checkpoint (dirs w) else dirs w)"
    by auto
  have "\<forall>e. checkpoint_path e = checkpoint_path epoch \<longrightarrow> e = epoch"
    by (blast dest: checkpoint_path_inj)
  with since_append [OF t] q show ?thesis
    by (simp add: proj_append even_iff_mod_2_eq_zero)
qed

theorem checkpoint_iff_even_witness:
  "files (snd (train_epoch (ex_collab [3, 3, 3, 3, 3]) 3 False 5 2 (ex_loader [3, 3, 3, 3, 3] 2) 0 0
         (ex_world None))) = [[''checkpoints'', ''checkpoint_epoch_224x224_1.pth''] \<mapsto> 3]
   \<and> dirs (snd (train_epoch (ex_collab [3, 3, 3, 3, 3]) 3 False 5 2 (ex_loader [3, 3, 3, 3, 3] 2) 0 0
         (ex_world None))) = {[''checkpoints'']}
   \<and> saves (since (ex_world None)
        (snd (train_epoch (ex_collab [3, 3, 3, 3, 3]) 3 False 5 2 (ex_loader [3, 3, 3, 3, 3] 2) 1 1
         (ex_world None)))) = []
   \<and> dirs (snd (train_epoch (ex_collab [3, 3, 3, 3, 3]) 3 False 5 2 (ex_loader [3, 3, 3, 3, 3] 2) 1 1
         (ex_world None))) = {}"
  unfolding ex_epoch0 ex_epoch1
  using checkpoint_iff_even [OF ex_epoch0] checkpoint_iff_even [OF ex_epoch1]
  by (simp add: ex_world_def checkpoint_path_def dir_checkpoint_def str_nat.simps digit_def)

subsection \<open>What the training loop leaves alone\<close>

lemma loop_frame_refl: "loop_frame w w"
  by (auto simp: loop_frame_def)

lemma loop_frame_trans:
  assumes "loop_frame w w1" and "loop_frame w1 w2"
  shows "loop_frame w w2"
proof -
  from assms have d: "unwritable w2 = unwritable w \<and> default_rng w2 = default_rng w
      \<and> dirs w \<subseteq> dirs w2 \<and> dirs w2 \<subseteq> insert dir_checkpoint (dirs w)"
    unfolding loop_frame_def by auto
  from assms(1) obtain e1 where
    a: "opt_lr w1 = opt_lr w" "sched_last_epoch w1 = sched_last_epoch w"
       "trace w1 = trace w @ e1" "set (steps e1) \<subseteq> {opt_lr w}"
       "fst ` set (saves e1) \<subseteq> range checkpoint_path" "constructs e1 = []"
       "set (mkdirs e1) \<subseteq> {dir_checkpoint}"
       "\<forall>f. f \<notin> range checkpoint_path \<longrightarrow> files w1 f = files w f"
    unfolding loop_frame_def by blast
  from assms(2) obtain e2 where
    b: "opt_lr w2 = opt_lr w1" "sched_last_epoch w2 = sched_last_epoch w1"
       "trace w2 = trace w1 @ e2" "set (steps e2) \<subseteq> {opt_lr w1}"
       "fst ` set (saves e2) \<subseteq> range checkpoint_path" "constructs e2 = []"
       "set (mkdirs e2) \<subseteq> {dir_checkpoint}"
       "\<forall>f. f \<notin> range checkpoint_path \<longrightarrow> files w2 f = files w1 f"
    unfolding loop_frame_def by blast
  from a b have "trace w2 = trace w @ (e1 @ e2) \<and> set (steps (e1 @ e2)) \<subseteq> {opt_lr w}
          \<and> fst ` set (saves (e1 @ e2)) \<subseteq> range checkpoint_path \<and> constructs (e1 @ e2) = []
          \<and> set (mkdirs (e1 @ e2)) \<subseteq> {dir_checkpoint}"
    by (simp add: proj_append image_Un)
  then have "\<exists>evs. trace w2 = trace w @ evs \<and> set (steps evs) \<subseteq> {opt_lr w}
          \<and> fst ` set (saves evs) \<subseteq> range checkpoint_path \<and> constructs evs = []
          \<and> set (mkdirs evs) \<subseteq> {dir_checkpoint}"
    by blast
  with a b d show ?thesis unfolding loop_frame_def by simp
qed

lemma batch_step_loop_frame:
  assumes "batch_step c nch am x st w = (r, w')"
  shows "loop_frame w w'"
proof -
  from batch_step_grows [OF assms] obtain evs where
    e: "trace w' = trace w @ evs" "set (steps evs) \<subseteq> {opt_lr w}" by blast
  from batch_step_frame [OF assms] e(1) have
    "saves evs = [] \<and> constructs evs = [] \<and> mkdirs evs = []"
    by (simp add: proj_append)
  with e batch_step_frame [OF assms] show ?thesis
    unfolding loop_frame_def by auto
qed

lemma batches_loop_loop_frame:
  "batches_loop c nch am xs st w = (r, w') \<Longrightarrow> loop_frame w w'"
proof (induction xs arbitrary: st w)
  case Nil
  then show ?case by (simp add: loop_frame_refl)
next
  case (Cons x xs)
  obtain r1 w1 where s1: "batch_step c nch am x st w = (r1, w1)"
    by (cases "batch_step c nch am x st w")
  note f1 = batch_step_loop_frame [OF s1]
  show ?case
  proof (cases r1)
    case (Inl e)
    with Cons.prems s1 f1 show ?thesis by simp
  next
    case (Inr st1)
    with Cons.prems s1 have "batches_loop c nch am xs st1 w1 = (r, w')" by simp
    from loop_frame_trans [OF f1 Cons.IH [OF this]] show ?thesis .
  qed
qed

lemma log_epoch_loop_frame:
  assumes "log_epoch n_train bs el epoch gs w = (r, w')"
  shows "loop_frame w w'"
proof (cases "bs = 0 \<or> n_train div bs = 0")
  case True
  with assms show ?thesis by (simp add: log_epoch_def loop_frame_refl)
next
  case False
  obtain t w1 where t: "tick w = (t, w1)" by (cases "tick w")
  from tick_world [OF t] obtain s where w1: "w1 = w\<lparr>sigint := s\<rparr>" by blast
  from assms False t w1 show ?thesis
    by (cases t) (auto simp: log_epoch_def loop_frame_def)
qed

lemma save_loop_frame:
  "loop_frame w (emit (Save (checkpoint_path epoch) x)
     (w\<lparr>files := (files w)(checkpoint_path epoch \<mapsto> x)\<rparr>))"
  by (auto simp: loop_frame_def)

lemma mkdir_loop_frame:
  "loop_frame w (emit (Mkdir dir_checkpoint) (w\<lparr>dirs := insert dir_checkpoint (dirs w)\<rparr>))"
  by (auto simp: loop_frame_def)

lemma tick_loop_frame: "tick w = (t, w1) \<Longrightarrow> loop_frame w w1"
  by (drule tick_world) (auto simp: loop_frame_def)

lemma torch_save_loop_frame:
  assumes "torch_save x (checkpoint_path epoch) w = (r, w')"
  shows "loop_frame w w'"
proof (cases "writable w (checkpoint_path epoch)")
  case True
  with assms have "w' = emit (Save (checkpoint_path epoch) x)
      (w\<lparr>files := (files w)(checkpoint_path epoch \<mapsto> x)\<rparr>)"
    by (simp add: torch_save_def)
  with save_loop_frame [of w epoch x] show ?thesis by simp
next
  case False
  with assms have "w' = w" by (simp add: torch_save_def)
  then show ?thesis by (simp add: loop_frame_refl)
qed

lemma mkdir_parents_loop_frame:
  assumes "mkdir_parents dir_checkpoint w = (r, w')"
  shows "loop_frame w w'"
proof (cases r)
  case (Inl e)
  with assms mkdir_checkpoint_fails [of w e w'] show ?thesis by (simp add: loop_frame_refl)
next
  case (Inr u)
  with assms mkdir_checkpoint_ok [of w u w'] mkdir_loop_frame [of w] show ?thesis by simp
qed

lemma periodic_checkpoint_loop_frame:
  assumes "periodic_checkpoint epoch w = (r, w')"
  shows "loop_frame w w'"
proof (cases "epoch mod 2 = 0")
  case False
  with assms show ?thesis by (simp add: periodic_checkpoint_def loop_frame_refl)
next
  case True
  obtain t1 w1 where t1: "tick w = (t1, w1)" by (cases "tick w")
  note f1 = tick_loop_frame [OF t1]
  show ?thesis
  proof (cases t1)
    case (Inl e)
    with assms True t1 f1 show ?thesis by (simp add: periodic_checkpoint_def)
  next
    case (Inr u)
    obtain t2 w2 where t2: "mkdir_parents dir_checkpoint w1 = (t2, w2)"
      by (cases "mkdir_parents dir_checkpoint w1")
    note f2 = loop_frame_trans [OF f1 mkdir_parents_loop_frame [OF t2]]
    show ?thesis
    proof (cases t2)
      case (Inl e)
      with assms True t1 Inr t2 have "w' = w2"
        by (simp add: periodic_checkpoint_def)
      with f2 show ?thesis by simp
    next
      case Inr2: (Inr u2)
      obtain t3 w3 where t3: "tick w2 = (t3, w3)" by (cases "tick w2")
      note f3 = loop_frame_trans [OF f2 tick_loop_frame [OF t3]]
      show ?thesis
      proof (cases t3)
        case (Inl e)
        with assms True t1 Inr t2 Inr2 t3 have "w' = w3"
          by (simp add: periodic_checkpoint_def)
        with f3 show ?thesis by simp
      next
        case Inr3: (Inr u3)
        with assms True t1 Inr t2 Inr2 t3 have
          "torch_save (params w3) (checkpoint_path epoch) w3 = (r, w')"
          by (simp add: periodic_checkpoint_def)
        from loop_frame_trans [OF f3 torch_save_loop_frame [OF this]] show ?thesis .
      qed
    qed
  qed
qed

lemma train_epoch_loop_frame:
  assumes "train_epoch c nch am n_train bs ld epoch gs w = (r, w')"
  shows "loop_frame w w'"
proof -
  obtain r1 w1 where l: "batches_loop c nch am (batches_of ld) (0, 0) w = (r1, w1)"
    by (cases "batches_loop c nch am (batches_of ld) (0, 0) w")
  note f1 = batches_loop_loop_frame [OF l]
  show ?thesis
  proof (cases r1)
    case (Inl e)
    with assms l f1 show ?thesis by (simp add: train_epoch_def)
  next
    case (Inr st)
    obtain r2 w2 where g: "log_epoch n_train bs (fst st) epoch gs w1 = (r2, w2)"
      by (cases "log_epoch n_train bs (fst st) epoch gs w1")
    note f2 = loop_frame_trans [OF f1 log_epoch_loop_frame [OF g]]
    show ?thesis
    proof (cases r2)
      case (Inl e)
      with assms l Inr g f2 show ?thesis by (simp add: train_epoch_def)
    next
      case Inr2: (Inr gs2)
      obtain r3 w3 where k: "periodic_checkpoint epoch w2 = (r3, w3)"
        by (cases "periodic_checkpoint epoch w2")
      note f3 = loop_frame_trans [OF f2 periodic_checkpoint_loop_frame [OF k]]
      show ?thesis
      proof (cases r3)
        case (Inl e)
        with assms l Inr g Inr2 k have "w' = w3" by (simp add: train_epoch_def)
        with f3 show ?thesis by simp
      next
        case Inr3: (Inr u3)
        obtain t4 w4 where t4: "tick w3 = (t4, w4)" by (cases "tick w3")
        from assms l Inr g Inr2 k Inr3 t4 have "w' = w4"
          by (cases t4) (simp_all add: train_epoch_def)
        with loop_frame_trans [OF f3 tick_loop_frame [OF t4]] show ?thesis by simp
      qed
    qed
  qed
qed

lemma epochs_loop_loop_frame:
  "epochs_loop c nch am n_train bs ld es gs w = (r, w') \<Longrightarrow> loop_frame w w'"
proof (induction es arbitrary: gs w)
  case Nil
  then show ?case by (simp add: loop_frame_refl)
next
  case (Cons epoch es)
  obtain r1 w1 where s1: "train_epoch c nch am n_train bs ld epoch gs w = (r1, w1)"
    by (cases "train_epoch c nch am n_train bs ld epoch gs w")
  note f1 = train_epoch_loop_frame [OF s1]
  show ?case
  proof (cases r1)
    case (Inl e)
    with Cons.prems s1 f1 show ?thesis by simp
  next
    case (Inr gs1)
    with Cons.prems s1 have "epochs_loop c nch am n_train bs ld es gs1 w1 = (r, w')" by simp
    from loop_frame_trans [OF f1 Cons.IH [OF this]] show ?thesis .
  qed
qed

subsection \<open>The set-up and the whole run\<close>

lemma try_dataset_frame:
  assumes "try_dataset c di dm sc w = (r, w')"
  shows "params w' = params w \<and> files w' = files w \<and> dirs w' = dirs w \<and> opt_lr w' = opt_lr w
     \<and> sched_last_epoch w' = sched_last_epoch w
     \<and> unwritable w' = unwritable w \<and> default_rng w' = default_rng w
     \<and> (\<exists>evs. trace w' = trace w @ evs \<and> steps evs = [] \<and> saves evs = [] \<and> logs evs = []
          \<and> mkdirs evs = [] \<and> forwards evs = [] \<and> losses evs = [])"
  using assms
  by (auto simp: try_dataset_def Let_def split: sum.splits prod.splits if_splits
      dest!: tick_world)

lemma try_dataset_sigint:
  assumes "sigint w = None" and "try_dataset c di dm sc w = (r, w')"
  shows "sigint w' = None"
  using assms
  by (auto simp: try_dataset_def Let_def tick_quiet split: sum.splits prod.splits if_splits)

text \<open>A split that draws from a generator of the caller's own leaves the world as it is.\<close>

lemma random_split_own:
  "random_split c ds ls (Own g) w =
     (if sum_list ls \<noteq> length (samples ds) then Inl ValueError
      else Inr (map (\<lambda>is. \<lparr>base = ds, indices = is\<rparr>) (slices (randperm c (sum_list ls) g) ls)),
      w)"
  by (simp add: random_split_def draw_randperm_def)

lemma split_train_world: "snd (split_train c ds w) = w"
  by (simp add: split_train_def random_split_own)

lemma split_val_world: "snd (split_val c ds w) = w"
  by (simp add: split_val_def random_split_own)

lemma split_and_load_world: "snd (split_and_load c dtr dte bs w) = w"
proof -
  obtain r1 where s1: "split_train c dtr w = (r1, w)"
    using split_train_world [of c dtr w] by (cases "split_train c dtr w") simp
  obtain r2 where s2: "split_val c dte w = (r2, w)"
    using split_val_world [of c dte w] by (cases "split_val c dte w") simp
  show ?thesis
    by (simp add: split_and_load_def s1 s2 split: sum.splits list.splits)
qed

lemma start_run_frame:
  assumes "start_run c lr0 w = (r, w')"
  shows "params w' = params w \<and> files w' = files w \<and> dirs w' = dirs w
     \<and> unwritable w' = unwritable w \<and> default_rng w' = default_rng w
     \<and> (trace w' = trace w \<or> trace w' = trace w @ [TrackerInit])
     \<and> (opt_lr w' = lr0 \<and> sched_last_epoch w' = 0
        \<or> opt_lr w' = opt_lr w \<and> sched_last_epoch w' = sched_last_epoch w)
     \<and> (\<forall>u. r = Inr u \<longrightarrow> opt_lr w' = lr0 \<and> sched_last_epoch w' = 0)"
proof -
  obtain t1 w1 where t1: "tick w = (t1, w1)" by (cases "tick w")
  from tick_world [OF t1] obtain s1 where w1: "w1 = w\<lparr>sigint := s1\<rparr>" by blast
  show ?thesis
  proof (cases t1)
    case (Inl e)
    with assms t1 have "r = Inl e" "w' = w1" by (simp_all add: start_run_def)
    with w1 show ?thesis by simp
  next
    case (Inr u1)
    obtain t2 w2 where t2: "tick (emit TrackerInit w1) = (t2, w2)"
      by (cases "tick (emit TrackerInit w1)")
    from tick_world [OF t2] obtain s2 where w2: "w2 = (emit TrackerInit w1)\<lparr>sigint := s2\<rparr>"
      by blast
    show ?thesis
    proof (cases t2)
      case (Inl e)
      with assms t1 Inr t2 have "r = Inl e" "w' = w2" by (simp_all add: start_run_def)
      with w1 w2 show ?thesis by simp
    next
      case Inr2: (Inr u2)
      let ?w3 = "w2\<lparr>optim := optim_init c (params w2) lr0, opt_lr := lr0, sched_last_epoch := 0\<rparr>"
      from assms t1 Inr t2 Inr2 have t3: "tick ?w3 = (r, w')"
        by (simp add: start_run_def)
      from tick_world [OF t3] obtain s3 where "w' = ?w3\<lparr>sigint := s3\<rparr>" by blast
      with w1 w2 show ?thesis by simp
    qed
  qed
qed

lemma prepare_frame:
  assumes "prepare c bs lr0 sc w = (r, w')"
  shows "params w' = params w \<and> files w' = files w \<and> dirs w' = dirs w
     \<and> unwritable w' = unwritable w \<and> default_rng w' = default_rng w
     \<and> (\<exists>evs. trace w' = trace w @ evs \<and> steps evs = [] \<and> saves evs = [] \<and> logs evs = []
          \<and> mkdirs evs = [] \<and> forwards evs = [] \<and> losses evs = [])
     \<and> (opt_lr w' = lr0 \<and> sched_last_epoch w' = 0
        \<or> opt_lr w' = opt_lr w \<and> sched_last_epoch w' = sched_last_epoch w)
     \<and> (\<forall>x. r = Inr x \<longrightarrow> opt_lr w' = lr0 \<and> sched_last_epoch w' = 0 \<and> 0 \<le> fst x)"
proof -
  obtain r1 w1 where d1: "try_dataset c dir_img_training dir_mask_training sc w = (r1, w1)"
    by (cases "try_dataset c dir_img_training dir_mask_training sc w")
  from try_dataset_frame [OF d1] obtain e1 where
    f1: "params w1 = params w" "files w1 = files w" "dirs w1 = dirs w" "opt_lr w1 = opt_lr w"
        "sched_last_epoch w1 = sched_last_epoch w" "unwritable w1 = unwritable w"
        "default_rng w1 = default_rng w" "trace w1 = trace w @ e1"
        "steps e1 = []" "saves e1 = []" "logs e1 = []" "mkdirs e1 = []" "forwards e1 = []"
        "losses e1 = []"
    by blast
  show ?thesis
  proof (cases r1)
    case (Inl e)
    with assms d1 have "r = Inl e" "w' = w1" by (simp_all add: prepare_def)
    with f1 show ?thesis by simp
  next
    case (Inr dtr)
    obtain r2 w2 where d2: "try_dataset c dir_img_testing dir_mask_testing sc w1 = (r2, w2)"
      by (cases "try_dataset c dir_img_testing dir_mask_testing sc w1")
    from try_dataset_frame [OF d2] obtain e2 where
      f2: "params w2 = params w1" "files w2 = files w1" "dirs w2 = dirs w1"
          "opt_lr w2 = opt_lr w1" "sched_last_epoch w2 = sched_last_epoch w1"
          "unwritable w2 = unwritable w1" "default_rng w2 = default_rng w1"
          "trace w2 = trace w1 @ e2"
          "steps e2 = []" "saves e2 = []" "logs e2 = []" "mkdirs e2 = []" "forwards e2 = []"
          "losses e2 = []"
      by blast
    from f1 f2 have t2: "trace w2 = trace w @ (e1 @ e2)" by simp
    from f1 f2 have p2: "steps (e1 @ e2) = []" "saves (e1 @ e2) = []" "logs (e1 @ e2) = []"
      "mkdirs (e1 @ e2) = []" "forwards (e1 @ e2) = []" "losses (e1 @ e2) = []"
      by (simp_all add: proj_append)
    show ?thesis
    proof (cases r2)
      case (Inl e)
      with assms d1 Inr d2 have "r = Inl e" "w' = w2" by (simp_all add: prepare_def)
      with f1 f2 t2 p2 show ?thesis by auto
    next
      case Inr2: (Inr dte)
      obtain r3 where d3: "split_and_load c dtr dte bs w2 = (r3, w2)"
        using split_and_load_world [of c dtr dte bs w2]
        by (cases "split_and_load c dtr dte bs w2") simp
      show ?thesis
      proof (cases r3)
        case (Inl e)
        with assms d1 Inr d2 Inr2 d3 have "r = Inl e" "w' = w2" by (simp_all add: prepare_def)
        with f1 f2 t2 p2 show ?thesis by auto
      next
        case Inr3: (Inr y)
        obtain sets ld vld where y: "y = (sets, ld, vld)" by (cases y) auto
        obtain r4 w4 where d4: "start_run c lr0 w2 = (r4, w4)" by (cases "start_run c lr0 w2")
        note f4 = start_run_frame [OF d4]
        from assms d1 Inr d2 Inr2 d3 Inr3 y d4 have
          w': "w' = w4" and r: "r = (case r4 of Inl e \<Rightarrow> Inl e
                                   | Inr u \<Rightarrow> Inr (int (length (samples dtr)), ld, vld))"
          by (cases r4; simp add: prepare_def)+
        from f4 have "trace w4 = trace w2 @ [] \<or> trace w4 = trace w2 @ [TrackerInit]" by simp
        with t2 have "trace w4 = trace w @ ((e1 @ e2) @ [])
            \<or> trace w4 = trace w @ ((e1 @ e2) @ [TrackerInit])"
          by auto
        moreover from p2 have "steps ((e1 @ e2) @ [TrackerInit]) = []"
          "saves ((e1 @ e2) @ [TrackerInit]) = []" "logs ((e1 @ e2) @ [TrackerInit]) = []"
          "mkdirs ((e1 @ e2) @ [TrackerInit]) = []" "forwards ((e1 @ e2) @ [TrackerInit]) = []"
          "losses ((e1 @ e2) @ [TrackerInit]) = []"
          by (simp_all add: proj_append)
        moreover from p2 have "steps ((e1 @ e2) @ []) = []"
          "saves ((e1 @ e2) @ []) = []" "logs ((e1 @ e2) @ []) = []"
          "mkdirs ((e1 @ e2) @ []) = []" "forwards ((e1 @ e2) @ []) = []"
          "losses ((e1 @ e2) @ []) = []"
          by simp_all
        ultimately have ev: "\<exists>evs. trace w4 = trace w @ evs \<and> steps evs = [] \<and> saves evs = []
             \<and> logs evs = [] \<and> mkdirs evs = [] \<and> forwards evs = [] \<and> losses evs = []"
          by blast
        from f4 f1 f2 have fr: "params w4 = params w \<and> files w4 = files w \<and> dirs w4 = dirs w
             \<and> unwritable w4 = unwritable w \<and> default_rng w4 = default_rng w
             \<and> (opt_lr w4 = lr0 \<and> sched_last_epoch w4 = 0
                \<or> opt_lr w4 = opt_lr w \<and> sched_last_epoch w4 = sched_last_epoch w)"
          by auto
        from f4 r have "\<forall>x. r = Inr x \<longrightarrow> opt_lr w4 = lr0 \<and> sched_last_epoch w4 = 0 \<and> 0 \<le> fst x"
          by (cases r4) auto
        with ev fr w' show ?thesis by simp
      qed
    qed
  qed
qed

lemma epochs_loop_first_fails:
  "train_epoch c nch am n_train bs ld epoch gs w = (Inl e, w') \<Longrightarrow>
     epochs_loop c nch am n_train bs ld (epoch # es) gs w = (Inl e, w')"
  by simp

lemma checkpoint_not_interrupt: "checkpoint_path epoch \<noteq> interrupt_path"
  by (simp add: checkpoint_path_def interrupt_path_def dir_checkpoint_def)

lemma interrupt_not_checkpoint: "interrupt_path \<notin> range checkpoint_path"
  using checkpoint_not_interrupt by (auto simp: image_iff) metis

lemma train_net_saves:
  assumes "train_net c nch ne bs lr0 vp sk sc am w = (r, w')"
  shows "\<exists>evs. trace w' = trace w @ evs \<and> fst ` set (saves evs) \<subseteq> range checkpoint_path
     \<and> (\<forall>f. f \<notin> range checkpoint_path \<longrightarrow> files w' f = files w f)"
proof -
  obtain r1 w1 where p: "prepare c bs lr0 sc w = (r1, w1)"
    by (cases "prepare c bs lr0 sc w")
  from prepare_frame [OF p] obtain e1 where
    f1: "trace w1 = trace w @ e1" "saves e1 = []" "files w1 = files w"
    by blast
  show ?thesis
  proof (cases r1)
    case (Inl e)
    with assms p have "w' = w1" by (simp add: train_net_def)
    with f1 show ?thesis by auto
  next
    case (Inr x)
    obtain n_train ld vld where x: "x = (n_train, ld, vld)" by (cases x) auto
    with assms p Inr have
      l: "epochs_loop c nch am n_train bs ld [0..<nat ne] 0 w1 = (r, w')"
      by (simp add: train_net_def)
    from epochs_loop_loop_frame [OF l] obtain e2 where
      f2: "trace w' = trace w1 @ e2" "fst ` set (saves e2) \<subseteq> range checkpoint_path"
          "\<forall>f. f \<notin> range checkpoint_path \<longrightarrow> files w' f = files w1 f"
      unfolding loop_frame_def by blast
    from f1 f2 have "trace w' = trace w @ (e1 @ e2)
       \<and> fst ` set (saves (e1 @ e2)) \<subseteq> range checkpoint_path
       \<and> (\<forall>f. f \<notin> range checkpoint_path \<longrightarrow> files w' f = files w f)"
      by (simp add: proj_append)
    then show ?thesis by blast
  qed
qed

text \<open>Only KeyboardInterrupt is handled: any other error of \<open>train_net\<close> ends the program.\<close>

lemma train_net_error_uncaught:
  assumes "load_weights a w = Inr w0"
    and "train_net c 3 (arg_epochs a) (arg_batch_size a) (arg_lr a) (arg_val a / 100) True
           (arg_scale a) (arg_amp a) w0 = (Inl e, w1)"
    and "e \<noteq> KeyboardInterrupt"
  shows "main c a w = (Uncaught e, w1)"
  using assms by (simp add: main_def)

lemma load_weights_ok:
  "load_weights a w = Inr w0 \<Longrightarrow>
     trace w0 = trace w \<and> files w0 = files w \<and> dirs w0 = dirs w \<and> sigint w0 = sigint w
     \<and> unwritable w0 = unwritable w \<and> default_rng w0 = default_rng w"
  by (auto simp: load_weights_def split: option.splits)

lemma filter_none: "(\<forall>x \<in> set xs. \<not> P x) \<Longrightarrow> filter P xs = []"
  by (induction xs) auto

lemma train_epoch_grows:
  assumes "train_epoch c nch am n_train bs ld epoch gs w = (r, w')"
  shows "\<exists>evs. trace w' = trace w @ evs"
  using train_epoch_loop_frame [OF assms] unfolding loop_frame_def by blast

lemma epochs_loop_saves:
  "epochs_loop c nch am n_train bs ld es gs w = (Inr u, w') \<Longrightarrow>
     map fst (saves (since w w')) = map checkpoint_path (filter even es)
     \<and> length (logs (since w w')) = length es"
proof (induction es arbitrary: gs w)
  case Nil
  then show ?case by (simp add: since_def)
next
  case (Cons epoch es)
  from Cons.prems obtain gs1 w1 where
    s1: "train_epoch c nch am n_train bs ld epoch gs w = (Inr gs1, w1)" and
    s2: "epochs_loop c nch am n_train bs ld es gs1 w1 = (Inr u, w')"
    by (auto split: prod.splits sum.splits)
  from train_epoch_grows [OF s1] obtain e1 where e1: "trace w1 = trace w @ e1" by blast
  from epochs_loop_loop_frame [OF s2] obtain e2 where e2: "trace w' = trace w1 @ e2"
    unfolding loop_frame_def by blast
  from e1 e2 have "trace w' = trace w @ (e1 @ e2)" by simp
  from since_append [OF this] since_append [OF e1] since_append [OF e2]
  have sp: "since w w' = since w w1 @ since w1 w'" by simp
  from train_epoch_ok [OF s1] obtain evs where
    t: "trace w1 = trace w @ (evs
           @ [LogLoss (sum_list (losses evs) / real_of_int (n_train div bs)) (gs + 1) epoch]
           @ (if epoch mod 2 = 0
              then [Mkdir dir_checkpoint, Save (checkpoint_path epoch) (params w1)] else []))"
    and q: "saves evs = []" "logs evs = []"
    by auto
  from since_append [OF t] q have
    a: "map fst (saves (since w w1)) = (if even epoch then [checkpoint_path epoch] else [])"
    and b: "length (logs (since w w1)) = 1"
    by (simp_all add: proj_append even_iff_mod_2_eq_zero)
  from Cons.IH [OF s2] a b sp show ?case
    by (simp add: proj_append)
qed

subsection \<open>A delivered signal leaves as KeyboardInterrupt\<close>

lemma tick_delivers: "tick w = (r, w') \<Longrightarrow> delivers w r w'"
  by (auto simp: tick_def delivers_def split: option.splits nat.splits)

lemma try_dataset_delivers:
  assumes "try_dataset c di dm sc w = (r, w')"
  shows "delivers w r w'"
  using assms
  by (auto simp: try_dataset_def Let_def tick_def delivers_def emit_def
      split: sum.splits prod.splits if_splits option.splits nat.splits)

lemma batch_step_delivers:
  assumes "batch_step c nch am x st w = (r, w')"
  shows "delivers w r w'"
  using assms
  by (auto simp: batch_step_def Let_def tick_def delivers_def emit_def
      split: sum.splits prod.splits if_splits option.splits nat.splits)

lemma log_epoch_delivers:
  assumes "log_epoch n_train bs el epoch gs w = (r, w')"
  shows "delivers w r w'"
  using assms
  by (auto simp: log_epoch_def tick_def delivers_def emit_def
      split: sum.splits prod.splits if_splits option.splits nat.splits)

lemma periodic_checkpoint_delivers:
  assumes "periodic_checkpoint epoch w = (r, w')"
  shows "delivers w r w'"
  using assms
  by (auto simp: periodic_checkpoint_def mkdir_checkpoint torch_save_def tick_def delivers_def
      emit_def split: sum.splits prod.splits if_splits option.splits nat.splits)

lemma start_run_delivers:
  assumes "start_run c lr0 w = (r, w')"
  shows "delivers w r w'"
  using assms
  by (auto simp: start_run_def tick_def delivers_def emit_def
      split: sum.splits prod.splits if_splits option.splits nat.splits)

lemma batches_loop_delivers:
  "batches_loop c nch am xs st w = (r, w') \<Longrightarrow> delivers w r w'"
proof (induction xs arbitrary: st w)
  case Nil
  then show ?case by (auto simp: delivers_def)
next
  case (Cons x xs)
  obtain r1 w1 where s1: "batch_step c nch am x st w = (r1, w1)"
    by (cases "batch_step c nch am x st w")
  note d1 = batch_step_delivers [OF s1]
  show ?case
  proof (cases r1)
    case (Inl e)
    with Cons.prems s1 d1 show ?thesis by (auto simp: delivers_def)
  next
    case (Inr st1)
    with Cons.prems s1 have s2: "batches_loop c nch am xs st1 w1 = (r, w')" by simp
    from Cons.IH [OF s2] d1 Inr show ?thesis by (auto simp: delivers_def)
  qed
qed

lemma train_epoch_delivers:
  assumes "train_epoch c nch am n_train bs ld epoch gs w = (r, w')"
  shows "delivers w r w'"
proof -
  obtain r1 w1 where l: "batches_loop c nch am (batches_of ld) (0, 0) w = (r1, w1)"
    by (cases "batches_loop c nch am (batches_of ld) (0, 0) w")
  note d1 = batches_loop_delivers [OF l]
  show ?thesis
  proof (cases r1)
    case (Inl e)
    with assms l d1 show ?thesis by (auto simp: train_epoch_def delivers_def)
  next
    case (Inr st)
    obtain r2 w2 where g: "log_epoch n_train bs (fst st) epoch gs w1 = (r2, w2)"
      by (cases "log_epoch n_train bs (fst st) epoch gs w1")
    note d2 = log_epoch_delivers [OF g]
    show ?thesis
    proof (cases r2)
      case (Inl e)
      with assms l Inr g d1 d2 show ?thesis by (auto simp: train_epoch_def delivers_def)
    next
      case Inr2: (Inr gs2)
      obtain r3 w3 where k: "periodic_checkpoint epoch w2 = (r3, w3)"
        by (cases "periodic_checkpoint epoch w2")
      note d3 = periodic_checkpoint_delivers [OF k]
      show ?thesis
      proof (cases r3)
        case (Inl e)
        with assms l Inr g Inr2 k d1 d2 d3 show ?thesis
          by (auto simp: train_epoch_def delivers_def)
      next
        case Inr3: (Inr u3)
        obtain t4 w4 where t4: "tick w3 = (t4, w4)" by (cases "tick w3")
        note d4 = tick_delivers [OF t4]
        from assms l Inr g Inr2 k Inr3 t4 d1 d2 d3 d4 show ?thesis
          by (cases t4) (auto simp: train_epoch_def delivers_def)
      qed
    qed
  qed
qed

lemma epochs_loop_delivers:
  "epochs_loop c nch am n_train bs ld es gs w = (r, w') \<Longrightarrow> delivers w r w'"
proof (induction es arbitrary: gs w)
  case Nil
  then show ?case by (auto simp: delivers_def)
next
  case (Cons epoch es)
  obtain r1 w1 where s1: "train_epoch c nch am n_train bs ld epoch gs w = (r1, w1)"
    by (cases "train_epoch c nch am n_train bs ld epoch gs w")
  note d1 = train_epoch_delivers [OF s1]
  show ?case
  proof (cases r1)
    case (Inl e)
    with Cons.prems s1 d1 show ?thesis by (auto simp: delivers_def)
  next
    case (Inr gs1)
    with Cons.prems s1 have s2: "epochs_loop c nch am n_train bs ld es gs1 w1 = (r, w')" by simp
    from Cons.IH [OF s2] d1 Inr show ?thesis by (auto simp: delivers_def)
  qed
qed

lemma prepare_delivers:
  assumes "prepare c bs lr0 sc w = (r, w')"
  shows "delivers w r w'"
proof -
  obtain r1 w1 where d1: "try_dataset c dir_img_training dir_mask_training sc w = (r1, w1)"
    by (cases "try_dataset c dir_img_training dir_mask_training sc w")
  note v1 = try_dataset_delivers [OF d1]
  show ?thesis
  proof (cases r1)
    case (Inl e)
    with assms d1 v1 show ?thesis by (auto simp: prepare_def delivers_def)
  next
    case (Inr dtr)
    obtain r2 w2 where d2: "try_dataset c dir_img_testing dir_mask_testing sc w1 = (r2, w2)"
      by (cases "try_dataset c dir_img_testing dir_mask_testing sc w1")
    note v2 = try_dataset_delivers [OF d2]
    show ?thesis
    proof (cases r2)
      case (Inl e)
      with assms d1 Inr d2 v1 v2 show ?thesis by (auto simp: prepare_def delivers_def)
    next
      case Inr2: (Inr dte)
      obtain r3 where d3: "split_and_load c dtr dte bs w2 = (r3, w2)"
        using split_and_load_world [of c dtr dte bs w2]
        by (cases "split_and_load c dtr dte bs w2") simp
      show ?thesis
      proof (cases r3)
        case (Inl e)
        with assms d1 Inr d2 Inr2 d3 v1 v2 show ?thesis by (auto simp: prepare_def delivers_def)
      next
        case Inr3: (Inr y)
        obtain sets ld vld where y: "y = (sets, ld, vld)" by (cases y) auto
        obtain t w3 where t: "start_run c lr0 w2 = (t, w3)" by (cases "start_run c lr0 w2")
        note v3 = start_run_delivers [OF t]
        from assms d1 Inr d2 Inr2 d3 Inr3 y t v1 v2 v3 show ?thesis
          by (cases t) (auto simp: prepare_def delivers_def)
      qed
    qed
  qed
qed

lemma train_net_delivers:
  assumes "train_net c nch ne bs lr0 vp sk sc am w = (r, w')"
  shows "delivers w r w'"
proof -
  obtain r1 w1 where p: "prepare c bs lr0 sc w = (r1, w1)"
    by (cases "prepare c bs lr0 sc w")
  note d1 = prepare_delivers [OF p]
  show ?thesis
  proof (cases r1)
    case (Inl e)
    with assms p d1 show ?thesis by (auto simp: train_net_def delivers_def)
  next
    case (Inr x)
    obtain n_train ld vld where x: "x = (n_train, ld, vld)" by (cases x) auto
    with assms p Inr have
      l: "epochs_loop c nch am n_train bs ld [0..<nat ne] 0 w1 = (r, w')"
      by (simp add: train_net_def)
    from epochs_loop_delivers [OF l] d1 Inr show ?thesis by (auto simp: delivers_def)
  qed
qed

subsection \<open>Runs of the example\<close>

lemma ex_prepare:
  "0 < b \<Longrightarrow> prepare (ex_collab chs) b (1 / 100) 1 (ex_world (Some (7 + k))) =
     (Inr (int (length chs), ex_loader chs (nat b), ex_val_loader chs (nat b)), ex_ready (Some k))"
  by (simp add: prepare_def try_dataset_def split_and_load_def split_train_def split_val_def
      random_split_own start_run_def DataLoader_def ex_collab_def ex_world_def ex_ready_def
      ex_loader_def ex_val_loader_def ex_dataset_def tick_def emit_def Let_def)

lemma ex_prepare_quiet:
  "0 < b \<Longrightarrow> prepare (ex_collab chs) b (1 / 100) 1 (ex_world None) =
     (Inr (int (length chs), ex_loader chs (nat b), ex_val_loader chs (nat b)), ex_ready None)"
  by (simp add: prepare_def try_dataset_def split_and_load_def split_train_def split_val_def
      random_split_own start_run_def DataLoader_def ex_collab_def ex_world_def ex_ready_def
      ex_loader_def ex_val_loader_def ex_dataset_def tick_def emit_def Let_def)

lemma ex_epochs_interrupted:
  "epochs_loop (ex_collab [3, 3, 3, 3, 3]) 3 False 5 2 (ex_loader [3, 3, 3, 3, 3] 2) [0, 1, 2] 0
     (ex_ready (Some 3)) =
   (Inl KeyboardInterrupt,
    (ex_ready None)\<lparr>params := 1,
      trace := trace (ex_ready None) @ [Forward 2, OptimStep (1 / 100), Loss 7, Forward 2]\<rparr>)"
  by (simp add: ex_batches_33333 ex_eval ex_ready_def)

lemma ex_run_interrupted:
  "train_net (ex_collab [3, 3, 3, 3, 3]) 3 (arg_epochs (ex_args 3 2)) (arg_batch_size (ex_args 3 2))
     (arg_lr (ex_args 3 2)) (arg_val (ex_args 3 2) / 100) True (arg_scale (ex_args 3 2))
     (arg_amp (ex_args 3 2)) (ex_world (Some 10)) =
   (Inl KeyboardInterrupt,
    (ex_ready None)\<lparr>params := 1,
      trace := trace (ex_ready None) @ [Forward 2, OptimStep (1 / 100), Loss 7, Forward 2]\<rparr>)"
proof -
  have p: "prepare (ex_collab [3, 3, 3, 3, 3]) 2 (1 / 100) 1 (ex_world (Some 10)) =
     (Inr (5, ex_loader [3, 3, 3, 3, 3] 2, ex_val_loader [3, 3, 3, 3, 3] 2), ex_ready (Some 3))"
    using ex_prepare [of 2 "[3, 3, 3, 3, 3]" 3] by simp
  have u: "[0..<3] = [0, 1, 2::nat]"
    by (simp add: upt_rec)
  have "train_net (ex_collab [3, 3, 3, 3, 3]) 3 (arg_epochs (ex_args 3 2))
     (arg_batch_size (ex_args 3 2)) (arg_lr (ex_args 3 2)) (arg_val (ex_args 3 2) / 100) True
     (arg_scale (ex_args 3 2)) (arg_amp (ex_args 3 2)) (ex_world (Some 10)) =
    epochs_loop (ex_collab [3, 3, 3, 3, 3]) 3 False 5 2 (ex_loader [3, 3, 3, 3, 3] 2) [0, 1, 2] 0
     (ex_ready (Some 3))"
    by (simp add: train_net_def ex_args_def p u del: epochs_loop.simps)
  then show ?thesis
    by (simp only: ex_epochs_interrupted)
qed

lemma ex_batches_333:
  "batches_of (ex_loader [3, 3, 3] 6) =
     [Inr \<lparr>n_imgs = 3, n_chans = 3, items = [smp 3 2, smp 3 1, smp 3 0]\<rparr>]"
  by (simp add: batches_of_def ex_loader_def batch_indices_def upt_rec chunks.simps fetch_def
      subset_get_def ex_dataset_def collate_def smp_def)

lemma ex_epochs_interrupted_late:
  "epochs_loop (ex_collab [3, 3, 3, 3, 3]) 3 False 5 2 (ex_loader [3, 3, 3, 3, 3] 2) [0, 1, 2] 0
     (ex_ready (Some 9)) =
   (Inl KeyboardInterrupt,
    (ex_ready None)\<lparr>params := 3,
      files := [checkpoint_path 0 \<mapsto> 3],
      dirs := {dir_checkpoint},
      trace := trace (ex_ready None) @
        [Forward 2, OptimStep (1 / 100), Loss 7, Forward 2, OptimStep (1 / 100), Loss 4,
         Forward 1, OptimStep (1 / 100), Loss 2, LogLoss (13 / 2) 1 0,
         Mkdir dir_checkpoint, Save (checkpoint_path 0) 3]\<rparr>)"
  by (simp add: ex_batches_33333 ex_eval ex_ready_def)

lemma ex_run_interrupted_late:
  "train_net (ex_collab [3, 3, 3, 3, 3]) 3 (arg_epochs (ex_args 3 2)) (arg_batch_size (ex_args 3 2))
     (arg_lr (ex_args 3 2)) (arg_val (ex_args 3 2) / 100) True (arg_scale (ex_args 3 2))
     (arg_amp (ex_args 3 2)) (ex_world (Some 16)) =
   (Inl KeyboardInterrupt,
    (ex_ready None)\<lparr>params := 3,
      files := [checkpoint_path 0 \<mapsto> 3],
      dirs := {dir_checkpoint},
      trace := trace (ex_ready None) @
        [Forward 2, OptimStep (1 / 100), Loss 7, Forward 2, OptimStep (1 / 100), Loss 4,
         Forward 1, OptimStep (1 / 100), Loss 2, LogLoss (13 / 2) 1 0,
         Mkdir dir_checkpoint, Save (checkpoint_path 0) 3]\<rparr>)"
proof -
  have p: "prepare (ex_collab [3, 3, 3, 3, 3]) 2 (1 / 100) 1 (ex_world (Some 16)) =
     (Inr (5, ex_loader [3, 3, 3, 3, 3] 2, ex_val_loader [3, 3, 3, 3, 3] 2), ex_ready (Some 9))"
    using ex_prepare [of 2 "[3, 3, 3, 3, 3]" 9] by simp
  have u: "[0..<3] = [0, 1, 2::nat]"
    by (simp add: upt_rec)
  have "train_net (ex_collab [3, 3, 3, 3, 3]) 3 (arg_epochs (ex_args 3 2))
     (arg_batch_size (ex_args 3 2)) (arg_lr (ex_args 3 2)) (arg_val (ex_args 3 2) / 100) True
     (arg_scale (ex_args 3 2)) (arg_amp (ex_args 3 2)) (ex_world (Some 16)) =
    epochs_loop (ex_collab [3, 3, 3, 3, 3]) 3 False 5 2 (ex_loader [3, 3, 3, 3, 3] 2) [0, 1, 2] 0
     (ex_ready (Some 9))"
    by (simp add: train_net_def ex_args_def p u del: epochs_loop.simps)
  then show ?thesis
    by (simp only: ex_epochs_interrupted_late)
qed

lemma ex_try_dataset:
  "try_dataset (ex_collab chs) di dm 1 (ex_world None) =
     (Inr (ex_dataset chs),
      (ex_world None)\<lparr>trace := [Construct Carvana di dm, Construct Basic di dm]\<rparr>)"
  by (simp add: try_dataset_def ex_collab_def ex_dataset_def ex_world_def tick_def emit_def)

lemma ex_randperm_ok: "randperm_ok (ex_collab chs)"
  by (simp add: randperm_ok_def ex_collab_def)
subsection \<open>C4: the interrupt checkpoint\<close>

lemma train_net_frame:
  assumes "train_net c nch ne bs lr0 vp sk sc am w = (r, w')"
  shows "unwritable w' = unwritable w \<and> default_rng w' = default_rng w
     \<and> dirs w \<subseteq> dirs w' \<and> dirs w' \<subseteq> insert dir_checkpoint (dirs w)"
proof -
  obtain r1 w1 where p: "prepare c bs lr0 sc w = (r1, w1)"
    by (cases "prepare c bs lr0 sc w")
  from prepare_frame [OF p] have
    f1: "unwritable w1 = unwritable w" "default_rng w1 = default_rng w" "dirs w1 = dirs w"
    by simp_all
  show ?thesis
  proof (cases r1)
    case (Inl e)
    with assms p have "w' = w1" by (simp add: train_net_def)
    with f1 show ?thesis by auto
  next
    case (Inr x)
    obtain n_train ld vld where x: "x = (n_train, ld, vld)" by (cases x) auto
    with assms p Inr have
      l: "epochs_loop c nch am n_train bs ld [0..<nat ne] 0 w1 = (r, w')"
      by (simp add: train_net_def)
    from epochs_loop_loop_frame [OF l] have
      "unwritable w' = unwritable w1 \<and> default_rng w' = default_rng w1
       \<and> dirs w1 \<subseteq> dirs w' \<and> dirs w' \<subseteq> insert dir_checkpoint (dirs w1)"
      unfolding loop_frame_def by blast
    with f1 show ?thesis by simp
  qed
qed

lemma interrupt_not_dir: "interrupt_path \<noteq> dir_checkpoint"
  by (simp add: interrupt_path_def dir_checkpoint_def)

lemma parent_interrupt_path: "parent interrupt_path = []"
  by (simp add: parent_def interrupt_path_def)

text \<open>Training does not change whether the interrupt checkpoint can be written.\<close>

lemma train_net_writable:
  assumes "train_net c nch ne bs lr0 vp sk sc am w = (r, w')"
  shows "writable w' interrupt_path \<longleftrightarrow> writable w interrupt_path"
  using train_net_frame [OF assms] interrupt_not_dir
  by (auto simp: writable_def parent_interrupt_path)

lemma on_interrupt_ok:
  "writable w interrupt_path \<Longrightarrow>
     on_interrupt w =
       (Exit 0, emit (Save interrupt_path (params w))
                  (w\<lparr>files := (files w)(interrupt_path \<mapsto> params w)\<rparr>))"
  by (simp add: on_interrupt_def torch_save_def)

lemma on_interrupt_fails:
  "\<not> writable w interrupt_path \<Longrightarrow> on_interrupt w = (Uncaught OSError, w)"
  by (simp add: on_interrupt_def torch_save_def)

lemma main_interrupted:
  assumes "load_weights a w = Inr w0"
    and "train_net c 3 (arg_epochs a) (arg_batch_size a) (arg_lr a) (arg_val a / 100) True
           (arg_scale a) (arg_amp a) w0 = (Inl KeyboardInterrupt, w1)"
  shows "main c a w = on_interrupt w1"
  using assms by (simp add: main_def)

text \<open>
  The example world in which a directory has the name of the interrupt checkpoint, and
  the run of the example in it that a signal interrupts in the second batch.
\<close>

lemma ex_run_blocked:
  "train_net (ex_collab [3, 3, 3, 3, 3]) 3 (arg_epochs (ex_args 3 2)) (arg_batch_size (ex_args 3 2))
     (arg_lr (ex_args 3 2)) (arg_val (ex_args 3 2) / 100) True (arg_scale (ex_args 3 2))
     (arg_amp (ex_args 3 2)) ((ex_world (Some 10))\<lparr>dirs := {interrupt_path}\<rparr>) =
   (Inl KeyboardInterrupt,
    (ex_ready None)\<lparr>params := 1, dirs := {interrupt_path},
      trace := trace (ex_ready None) @ [Forward 2, OptimStep (1 / 100), Loss 7, Forward 2]\<rparr>)"
proof -
  have p: "prepare (ex_collab [3, 3, 3, 3, 3]) 2 (1 / 100) 1
      ((ex_world (Some 10))\<lparr>dirs := {interrupt_path}\<rparr>) =
     (Inr (5, ex_loader [3, 3, 3, 3, 3] 2, ex_val_loader [3, 3, 3, 3, 3] 2),
      (ex_ready (Some 3))\<lparr>dirs := {interrupt_path}\<rparr>)"
    by (simp add: prepare_def try_dataset_def split_and_load_def split_train_def split_val_def
      random_split_own start_run_def DataLoader_def ex_collab_def ex_world_def ex_ready_def
      ex_loader_def ex_val_loader_def ex_dataset_def tick_def emit_def Let_def)
  have u: "[0..<3] = [0, 1, 2::nat]"
    by (simp add: upt_rec)
  have e: "epochs_loop (ex_collab [3, 3, 3, 3, 3]) 3 False 5 2 (ex_loader [3, 3, 3, 3, 3] 2)
      [0, 1, 2] 0 ((ex_ready (Some 3))\<lparr>dirs := {interrupt_path}\<rparr>) =
     (Inl KeyboardInterrupt,
      (ex_ready None)\<lparr>params := 1, dirs := {interrupt_path},
        trace := trace (ex_ready None) @ [Forward 2, OptimStep (1 / 100), Loss 7, Forward 2]\<rparr>)"
    by (simp add: ex_batches_33333 ex_eval ex_ready_def)
  have "train_net (ex_collab [3, 3, 3, 3, 3]) 3 (arg_epochs (ex_args 3 2))
     (arg_batch_size (ex_args 3 2)) (arg_lr (ex_args 3 2)) (arg_val (ex_args 3 2) / 100) True
     (arg_scale (ex_args 3 2)) (arg_amp (ex_args 3 2))
     ((ex_world (Some 10))\<lparr>dirs := {interrupt_path}\<rparr>) =
    epochs_loop (ex_collab [3, 3, 3, 3, 3]) 3 False 5 2 (ex_loader [3, 3, 3, 3, 3] 2) [0, 1, 2] 0
     ((ex_ready (Some 3))\<lparr>dirs := {interrupt_path}\<rparr>)"
    by (simp add: train_net_def ex_args_def p u del: epochs_loop.simps)
  then show ?thesis
    by (simp only: e)
qed

text \<open>The run of the example that a signal interrupts between lines 64 and 81.\<close>

lemma ex_run_interrupted_setup:
  "train_net (ex_collab [3, 3, 3, 3, 3]) 3 (arg_epochs (ex_args 3 2)) (arg_batch_size (ex_args 3 2))
     (arg_lr (ex_args 3 2)) (arg_val (ex_args 3 2) / 100) True (arg_scale (ex_args 3 2))
     (arg_amp (ex_args 3 2)) (ex_world (Some 5)) =
   (Inl KeyboardInterrupt,
    (ex_world None)\<lparr>trace := trace (ex_ready None)\<rparr>)"
  by (simp add: train_net_def ex_args_def prepare_def try_dataset_def split_and_load_def
      split_train_def split_val_def random_split_own start_run_def DataLoader_def ex_collab_def
      ex_world_def ex_ready_def ex_dataset_def tick_def emit_def Let_def)

text \<open>
  C4, as it holds. When KeyboardInterrupt leaves \<open>train_net\<close>, in whatever world the
  training had reached, and in particular when a cancellation signal that was pending at
  the start has been delivered by the time \<open>train_net\<close> ends, and the name
  INTERRUPTED.pth can be written (it is not a directory and the operating system does not
  refuse), the main program exits with status 0 after one more operation: it saves the
  parameters as they are at that moment under the fixed name. Among all the files saved
  since the program started exactly one goes to that name, and the file then holds those
  parameters, whatever it held before.
\<close>

theorem interrupt_checkpoint:
  assumes "load_weights a w = Inr w0"
    and "train_net c 3 (arg_epochs a) (arg_batch_size a) (arg_lr a) (arg_val a / 100) True
           (arg_scale a) (arg_amp a) w0 = (r, w1)"
    and "r = Inl KeyboardInterrupt \<or> sigint w \<noteq> None \<and> sigint w1 = None"
    and "writable w interrupt_path"
  shows "r = Inl KeyboardInterrupt
     \<and> fst (main c a w) = Exit 0
     \<and> params (snd (main c a w)) = params w1
     \<and> files (snd (main c a w)) = (files w1)(interrupt_path \<mapsto> params w1)
     \<and> since w1 (snd (main c a w)) = [Save interrupt_path (params w1)]
     \<and> filter (\<lambda>s. fst s = interrupt_path) (saves (since w (snd (main c a w))))
         = [(interrupt_path, params w1)]"
proof -
  let ?w2 = "emit (Save interrupt_path (params w1))
               (w1\<lparr>files := (files w1)(interrupt_path \<mapsto> params w1)\<rparr>)"
  note lw = load_weights_ok [OF assms(1)]
  from lw have "sigint w \<noteq> None \<longrightarrow> sigint w0 \<noteq> None"
    by simp
  with train_net_delivers [OF assms(2)] assms(3) have r: "r = Inl KeyboardInterrupt"
    by (auto simp: delivers_def)
  from lw assms(4) have "writable w0 interrupt_path"
    by (simp add: writable_def)
  with train_net_writable [OF assms(2)] have wr: "writable w1 interrupt_path"
    by simp
  from assms(2) r have t: "train_net c 3 (arg_epochs a) (arg_batch_size a) (arg_lr a)
      (arg_val a / 100) True (arg_scale a) (arg_amp a) w0 = (Inl KeyboardInterrupt, w1)"
    by simp
  from on_interrupt_ok [OF wr] main_interrupted [OF assms(1) t]
  have m: "main c a w = (Exit 0, ?w2)"
    by simp
  from train_net_saves [OF assms(2)] obtain evs where
    e: "trace w1 = trace w0 @ evs" "fst ` set (saves evs) \<subseteq> range checkpoint_path"
    by blast
  from e(2) interrupt_not_checkpoint have "\<forall>s \<in> set (saves evs). \<not> fst s = interrupt_path"
    by auto
  then have n: "filter (\<lambda>s. fst s = interrupt_path) (saves evs) = []"
    by (rule filter_none)
  from e lw have
    "trace ?w2 = trace w @ (evs @ [Save interrupt_path (params w1)])"
    by simp
  from since_append [OF this] n have
    "filter (\<lambda>s. fst s = interrupt_path) (saves (since w ?w2)) = [(interrupt_path, params w1)]"
    by (simp add: proj_append)
  moreover have "since w1 ?w2 = [Save interrupt_path (params w1)]"
    by (simp add: since_def)
  ultimately show ?thesis using m r by simp
qed

theorem interrupt_checkpoint_witness:
  "fst (main (ex_collab [3, 3, 3, 3, 3]) (ex_args 3 2) (ex_world (Some 10))) = Exit 0
   \<and> files (snd (main (ex_collab [3, 3, 3, 3, 3]) (ex_args 3 2) (ex_world (Some 10))))
        [''INTERRUPTED.pth''] = Some 1
   \<and> saves (since (ex_world (Some 10))
        (snd (main (ex_collab [3, 3, 3, 3, 3]) (ex_args 3 2) (ex_world (Some 10)))))
        = [([''INTERRUPTED.pth''], 1)]
   \<and> fst (main (ex_collab [3, 3, 3, 3, 3]) (ex_args 3 2) (ex_world (Some 5))) = Exit 0
   \<and> saves (since (ex_world (Some 5))
        (snd (main (ex_collab [3, 3, 3, 3, 3]) (ex_args 3 2) (ex_world (Some 5)))))
        = [([''INTERRUPTED.pth''], 0)]"
proof -
  have l: "load_weights (ex_args 3 2) (ex_world (Some 10)) = Inr (ex_world (Some 10))"
    and l': "load_weights (ex_args 3 2) (ex_world (Some 5)) = Inr (ex_world (Some 5))"
    by (simp_all add: load_weights_def ex_args_def)
  have p: "Inl KeyboardInterrupt = (Inl KeyboardInterrupt :: error + unit)
      \<or> sigint (ex_world (Some 10)) \<noteq> None
        \<and> sigint ((ex_ready None)\<lparr>params := 1,
            trace := trace (ex_ready None) @ [Forward 2, OptimStep (1 / 100), Loss 7, Forward 2]\<rparr>)
            = None"
    by simp
  have p': "Inl KeyboardInterrupt = (Inl KeyboardInterrupt :: error + unit)
      \<or> sigint (ex_world (Some 5)) \<noteq> None
        \<and> sigint ((ex_world None)\<lparr>trace := trace (ex_ready None)\<rparr>) = None"
    by simp
  have d: "writable (ex_world (Some 10)) interrupt_path"
    and d': "writable (ex_world (Some 5)) interrupt_path"
    by (simp_all add: writable_def ex_world_def parent_interrupt_path)
  have m: "main (ex_collab [3, 3, 3, 3, 3]) (ex_args 3 2) (ex_world (Some 10)) =
     (Exit 0, (ex_ready None)\<lparr>params := 1,
        files := [interrupt_path \<mapsto> 1],
        trace := trace (ex_ready None)
          @ [Forward 2, OptimStep (1 / 100), Loss 7, Forward 2, Save interrupt_path 1]\<rparr>)"
    unfolding main_def l using ex_run_interrupted
    by (simp add: on_interrupt_def torch_save_def writable_def parent_interrupt_path emit_def
        ex_ready_def)
  have m': "main (ex_collab [3, 3, 3, 3, 3]) (ex_args 3 2) (ex_world (Some 5)) =
     (Exit 0, (ex_world None)\<lparr>files := [interrupt_path \<mapsto> 0],
        trace := trace (ex_ready None) @ [Save interrupt_path 0]\<rparr>)"
    unfolding main_def l' using ex_run_interrupted_setup
    by (simp add: on_interrupt_def torch_save_def writable_def parent_interrupt_path emit_def
        ex_ready_def ex_world_def)
  from interrupt_checkpoint [OF l ex_run_interrupted p d]
    interrupt_checkpoint [OF l' ex_run_interrupted_setup p' d']
  show ?thesis
    unfolding m m' by (simp add: ex_ready_def ex_world_def since_def interrupt_path_def)
qed

text \<open>
  C4 as the specification states it does not hold: the save of the handler can fail.
  Where a directory has the name INTERRUPTED.pth, a signal is delivered during training
  and KeyboardInterrupt leaves \<open>train_net\<close>, but the save raises: the program ends with
  that error, not with status 0, and no file has been written.
\<close>

theorem interrupt_checkpoint_counterexample:
  "sigint ((ex_world (Some 10))\<lparr>dirs := {interrupt_path}\<rparr>) \<noteq> None
   \<and> fst (train_net (ex_collab [3, 3, 3, 3, 3]) 3 (arg_epochs (ex_args 3 2))
          (arg_batch_size (ex_args 3 2)) (arg_lr (ex_args 3 2)) (arg_val (ex_args 3 2) / 100) True
          (arg_scale (ex_args 3 2)) (arg_amp (ex_args 3 2))
          ((ex_world (Some 10))\<lparr>dirs := {interrupt_path}\<rparr>)) = Inl KeyboardInterrupt
   \<and> fst (main (ex_collab [3, 3, 3, 3, 3]) (ex_args 3 2)
          ((ex_world (Some 10))\<lparr>dirs := {interrupt_path}\<rparr>)) = Uncaught OSError
   \<and> fst (main (ex_collab [3, 3, 3, 3, 3]) (ex_args 3 2)
          ((ex_world (Some 10))\<lparr>dirs := {interrupt_path}\<rparr>)) \<noteq> Exit 0
   \<and> saves (trace (snd (main (ex_collab [3, 3, 3, 3, 3]) (ex_args 3 2)
          ((ex_world (Some 10))\<lparr>dirs := {interrupt_path}\<rparr>)))) = []
   \<and> files (snd (main (ex_collab [3, 3, 3, 3, 3]) (ex_args 3 2)
          ((ex_world (Some 10))\<lparr>dirs := {interrupt_path}\<rparr>))) [''INTERRUPTED.pth''] = None"
proof -
  let ?w = "(ex_world (Some 10))\<lparr>dirs := {interrupt_path}\<rparr>"
  let ?w1 = "(ex_ready None)\<lparr>params := 1, dirs := {interrupt_path},
      trace := trace (ex_ready None) @ [Forward 2, OptimStep (1 / 100), Loss 7, Forward 2]\<rparr>"
  have l: "load_weights (ex_args 3 2) ?w = Inr ?w"
    by (simp add: load_weights_def ex_args_def)
  have "\<not> writable ?w1 interrupt_path"
    by (simp add: writable_def)
  from on_interrupt_fails [OF this] main_interrupted [OF l ex_run_blocked]
  have m: "main (ex_collab [3, 3, 3, 3, 3]) (ex_args 3 2) ?w = (Uncaught OSError, ?w1)"
    by simp
  show ?thesis
    unfolding m ex_run_blocked by (simp add: ex_world_def ex_ready_def)
qed

subsection \<open>C5: the two dataset strategies\<close>

text \<open>
  C5. With no cancellation pending, the construction of a dataset for a pair of
  directories attempts the specialised class first and the generic class exactly when the
  specialised one raised AssertionError or RuntimeError, each at most once. A dataset that
  results is backed by the specialised class when that one succeeded, and by the generic
  class when the specialised one failed in that way and the generic one succeeded: the
  failure of the specialised class is then not the outcome. An error that results is
  either another error of the specialised class or the error of the generic class. The
  loop over the epochs constructs no dataset.
\<close>

theorem dataset_fallback:
  assumes "sigint w = None"
    and "try_dataset c di dm sc w = (r, w')"
  shows "constructs (since w w') =
           (if CarvanaDataset c di dm sc \<in> {Inl AssertionError, Inl RuntimeError}
            then [(Carvana, di, dm), (Basic, di, dm)] else [(Carvana, di, dm)])
     \<and> (\<forall>xs. CarvanaDataset c di dm sc = Inr xs \<longrightarrow> r = Inr \<lparr>backed_by = Carvana, samples = xs\<rparr>)
     \<and> (\<forall>ys. CarvanaDataset c di dm sc \<in> {Inl AssertionError, Inl RuntimeError}
            \<and> BasicDataset c di dm sc = Inr ys \<longrightarrow> r = Inr \<lparr>backed_by = Basic, samples = ys\<rparr>)
     \<and> (\<forall>d. r = Inr d \<longrightarrow>
            backed_by d = Carvana \<and> CarvanaDataset c di dm sc = Inr (samples d)
          \<or> backed_by d = Basic \<and> BasicDataset c di dm sc = Inr (samples d)
             \<and> CarvanaDataset c di dm sc \<in> {Inl AssertionError, Inl RuntimeError})
     \<and> (\<forall>e. r = Inl e \<longrightarrow>
            CarvanaDataset c di dm sc = Inl e \<and> e \<noteq> AssertionError \<and> e \<noteq> RuntimeError
          \<or> BasicDataset c di dm sc = Inl e
             \<and> CarvanaDataset c di dm sc \<in> {Inl AssertionError, Inl RuntimeError})
     \<and> constructs (since w' (snd (epochs_loop c nch am n_train bs ld es gs w'))) = []"
proof -
  obtain r2 w2 where l: "epochs_loop c nch am n_train bs ld es gs w' = (r2, w2)"
    by (cases "epochs_loop c nch am n_train bs ld es gs w'")
  from epochs_loop_loop_frame [OF l] obtain evs where
    "trace w2 = trace w' @ evs" "constructs evs = []"
    unfolding loop_frame_def by blast
  with since_append [of w2 w' evs] l
  have a: "constructs (since w' (snd (epochs_loop c nch am n_train bs ld es gs w'))) = []"
    by simp
  from assms have b: "constructs (since w w') =
           (if CarvanaDataset c di dm sc \<in> {Inl AssertionError, Inl RuntimeError}
            then [(Carvana, di, dm), (Basic, di, dm)] else [(Carvana, di, dm)])"
    by (auto simp: try_dataset_def Let_def tick_quiet since_def split: sum.splits if_splits)
  from assms have c: "\<forall>xs. CarvanaDataset c di dm sc = Inr xs
       \<longrightarrow> r = Inr \<lparr>backed_by = Carvana, samples = xs\<rparr>"
    by (auto simp: try_dataset_def Let_def tick_quiet split: sum.splits if_splits)
  from assms have d: "\<forall>ys. CarvanaDataset c di dm sc \<in> {Inl AssertionError, Inl RuntimeError}
            \<and> BasicDataset c di dm sc = Inr ys \<longrightarrow> r = Inr \<lparr>backed_by = Basic, samples = ys\<rparr>"
    by (auto simp: try_dataset_def Let_def tick_quiet split: sum.splits if_splits)
  from assms have e: "\<forall>d. r = Inr d \<longrightarrow>
            backed_by d = Carvana \<and> CarvanaDataset c di dm sc = Inr (samples d)
          \<or> backed_by d = Basic \<and> BasicDataset c di dm sc = Inr (samples d)
             \<and> CarvanaDataset c di dm sc \<in> {Inl AssertionError, Inl RuntimeError}"
    by (auto simp: try_dataset_def Let_def tick_quiet split: sum.splits if_splits)
  from assms have f: "\<forall>e. r = Inl e \<longrightarrow>
            CarvanaDataset c di dm sc = Inl e \<and> e \<noteq> AssertionError \<and> e \<noteq> RuntimeError
          \<or> BasicDataset c di dm sc = Inl e
             \<and> CarvanaDataset c di dm sc \<in> {Inl AssertionError, Inl RuntimeError}"
    by (auto simp: try_dataset_def Let_def tick_quiet split: sum.splits if_splits)
  from a b c d e f show ?thesis by blast
qed

theorem dataset_fallback_witness:
  "fst (try_dataset (ex_collab [3, 3, 3]) dir_img_training dir_mask_training 1 (ex_world None))
     = Inr (ex_dataset [3, 3, 3])
   \<and> constructs (since (ex_world None)
        (snd (try_dataset (ex_collab [3, 3, 3]) dir_img_training dir_mask_training 1
           (ex_world None))))
     = [(Carvana, dir_img_training, dir_mask_training), (Basic, dir_img_training, dir_mask_training)]"
proof -
  let ?w' = "(ex_world None)\<lparr>trace := [Construct Carvana dir_img_training dir_mask_training,
               Construct Basic dir_img_training dir_mask_training]\<rparr>"
  have s: "sigint (ex_world None) = None"
    by (simp add: ex_world_def)
  have c: "CarvanaDataset (ex_collab [3, 3, 3]) dir_img_training dir_mask_training 1
      \<in> {Inl AssertionError, Inl RuntimeError}"
    by (simp add: ex_collab_def)
  note th = dataset_fallback [OF s ex_try_dataset [of "[3, 3, 3]" dir_img_training dir_mask_training],
      of 3 False 3 2 "ex_loader [3, 3, 3] 2" "[]" 0]
  from th have "constructs (since (ex_world None) ?w') =
           (if CarvanaDataset (ex_collab [3, 3, 3]) dir_img_training dir_mask_training 1
                 \<in> {Inl AssertionError, Inl RuntimeError}
            then [(Carvana, dir_img_training, dir_mask_training),
                  (Basic, dir_img_training, dir_mask_training)]
            else [(Carvana, dir_img_training, dir_mask_training)])"
    by (rule conjunct1)
  with c have "constructs (since (ex_world None) ?w') =
     [(Carvana, dir_img_training, dir_mask_training), (Basic, dir_img_training, dir_mask_training)]"
    by (simp only: if_True)
  then show ?thesis
    by (simp only: ex_try_dataset fst_conv snd_conv simp_thms)
qed

subsection \<open>C6: the degenerate split\<close>

lemma slices_whole_first:
  "length xs = n \<Longrightarrow> slices xs [n, 0] = [xs, []]"
  by simp

lemma slices_whole_second:
  "length xs = n \<Longrightarrow> slices xs [0, n] = [[], xs]"
  by simp

lemma randperm_ok_length: "randperm_ok c \<Longrightarrow> length (randperm c n g) = n"
proof -
  assume "randperm_ok c"
  then have "distinct (randperm c n g)" "set (randperm c n g) = {0..<n}"
    by (simp_all add: randperm_ok_def)
  then have "length (randperm c n g) = card {0..<n}"
    by (metis distinct_card)
  then show ?thesis by simp
qed

lemma length_concat_slices:
  "sum_list ls \<le> length xs \<Longrightarrow> sum_list (map length (slices xs ls)) = sum_list ls"
  by (induction ls arbitrary: xs) auto

text \<open>
  C6. Provided the generator returns permutations, the split of the training dataset
  yields two subsets of which the first (the training set) holds every index of the
  dataset once and the second none, and the split of the testing dataset yields two
  subsets of which the second (the validation set) holds every index once and the first
  none, in whatever world the splits are made, which they leave as it is; and whenever
  \<open>random_split\<close> returns, with whatever generator, the sizes of the subsets are the
  requested ones and sum to the length of the dataset.
\<close>

theorem split_degenerate:
  assumes "randperm_ok c"
  shows "(\<exists>train_set rest. split_train c dtr w = (Inr [train_set, rest], w)
            \<and> base train_set = dtr \<and> distinct (indices train_set)
            \<and> set (indices train_set) = {0..<length (samples dtr)} \<and> indices rest = [])
     \<and> (\<exists>rest val_set. split_val c dte w = (Inr [rest, val_set], w)
            \<and> base val_set = dte \<and> distinct (indices val_set)
            \<and> set (indices val_set) = {0..<length (samples dte)} \<and> indices rest = [])
     \<and> (\<forall>parts. fst (random_split c ds ls gen w) = Inr parts \<longrightarrow>
            sum_list (map (\<lambda>s. length (indices s)) parts) = length (samples ds)
            \<and> map (\<lambda>s. length (indices s)) parts = ls)"
proof -
  let ?n = "length (samples dtr)" and ?m = "length (samples dte)"
  let ?p = "randperm c ?n (manual_seed c 0)" and ?q = "randperm c ?m (manual_seed c 0)"
  from assms have p: "distinct ?p" "set ?p = {0..<?n}" "length ?p = ?n"
    and q: "distinct ?q" "set ?q = {0..<?m}" "length ?q = ?m"
    by (simp_all add: randperm_ok_length) (simp_all add: randperm_ok_def)
  have "split_train c dtr w =
      (Inr [\<lparr>base = dtr, indices = ?p\<rparr>, \<lparr>base = dtr, indices = []\<rparr>], w)"
    using p(3) by (simp add: split_train_def random_split_own)
  with p have a: "\<exists>train_set rest. split_train c dtr w = (Inr [train_set, rest], w)
            \<and> base train_set = dtr \<and> distinct (indices train_set)
            \<and> set (indices train_set) = {0..<length (samples dtr)} \<and> indices rest = []"
    by simp
  have "split_val c dte w =
      (Inr [\<lparr>base = dte, indices = []\<rparr>, \<lparr>base = dte, indices = ?q\<rparr>], w)"
    using q(3) by (simp add: split_val_def random_split_own)
  with q have b: "\<exists>rest val_set. split_val c dte w = (Inr [rest, val_set], w)
            \<and> base val_set = dte \<and> distinct (indices val_set)
            \<and> set (indices val_set) = {0..<length (samples dte)} \<and> indices rest = []"
    by simp
  have sl: "\<And>xs. sum_list ls \<le> length xs \<Longrightarrow> map length (slices xs ls) = ls"
  proof -
    fix xs :: "nat list"
    show "sum_list ls \<le> length xs \<Longrightarrow> map length (slices xs ls) = ls"
      by (induction ls arbitrary: xs) auto
  qed
  have "\<forall>parts. fst (random_split c ds ls gen w) = Inr parts \<longrightarrow>
            sum_list (map (\<lambda>s. length (indices s)) parts) = length (samples ds)
            \<and> map (\<lambda>s. length (indices s)) parts = ls"
  proof (intro allI impI)
    fix parts
    assume r: "fst (random_split c ds ls gen w) = Inr parts"
    obtain g where g: "fst (draw_randperm c (sum_list ls) gen w) = randperm c (sum_list ls) g"
      by (cases gen) (simp_all add: draw_randperm_def)
    from r have s: "sum_list ls = length (samples ds)"
      by (auto simp: random_split_def split: if_splits)
    with r g have parts: "parts = map (\<lambda>is. \<lparr>base = ds, indices = is\<rparr>)
                  (slices (randperm c (sum_list ls) g) ls)"
      by (auto simp: random_split_def split: prod.splits)
    from assms have "length (randperm c (sum_list ls) g) = sum_list ls"
      by (rule randperm_ok_length)
    then have "map length (slices (randperm c (sum_list ls) g) ls) = ls"
      by (intro sl) simp
    with parts have "map (\<lambda>s. length (indices s)) parts = ls"
      by (simp add: comp_def)
    with s show "sum_list (map (\<lambda>s. length (indices s)) parts) = length (samples ds)
            \<and> map (\<lambda>s. length (indices s)) parts = ls"
      by simp
  qed
  with a b show ?thesis by blast
qed

lemma upt3: "[0..<3] = [0, 1, 2]"
  by (simp add: upt_rec)

theorem split_degenerate_witness:
  "split_train (ex_collab [3, 3, 3]) (ex_dataset [3, 3, 3]) (ex_world None) =
     (Inr [\<lparr>base = ex_dataset [3, 3, 3], indices = [2, 1, 0]\<rparr>,
           \<lparr>base = ex_dataset [3, 3, 3], indices = []\<rparr>], ex_world None)
   \<and> split_val (ex_collab [3, 3, 3]) (ex_dataset [3, 3, 3]) (ex_world None) =
     (Inr [\<lparr>base = ex_dataset [3, 3, 3], indices = []\<rparr>,
           \<lparr>base = ex_dataset [3, 3, 3], indices = [2, 1, 0]\<rparr>], ex_world None)
   \<and> randperm_ok (ex_collab [3, 3, 3])"
proof -
  have "split_train (ex_collab [3, 3, 3]) (ex_dataset [3, 3, 3]) (ex_world None) =
     (Inr [\<lparr>base = ex_dataset [3, 3, 3], indices = [2, 1, 0]\<rparr>,
           \<lparr>base = ex_dataset [3, 3, 3], indices = []\<rparr>], ex_world None)"
    by (simp add: split_train_def random_split_own ex_collab_def ex_dataset_def upt3)
  moreover have "split_val (ex_collab [3, 3, 3]) (ex_dataset [3, 3, 3]) (ex_world None) =
     (Inr [\<lparr>base = ex_dataset [3, 3, 3], indices = []\<rparr>,
           \<lparr>base = ex_dataset [3, 3, 3], indices = [2, 1, 0]\<rparr>], ex_world None)"
    by (simp add: split_val_def random_split_own ex_collab_def ex_dataset_def upt3)
  ultimately show ?thesis
    using split_degenerate [OF ex_randperm_ok [of "[3, 3, 3]"]] ex_randperm_ok by simp
qed

subsection \<open>C7: the learning rate\<close>

text \<open>
  C7. However \<open>train_net\<close> ends (normally, by an error or by a cancellation arriving at
  any point), every optimizer step it took used the configured learning rate, and at the
  end either the optimizer holds the configured learning rate and the scheduler has never
  been stepped, or the set-up was not completed: then no forward pass and no optimizer
  step took place and the learning rate and scheduler of the world are untouched.
\<close>

theorem learning_rate_constant:
  assumes "train_net c nch ne bs lr0 vp sk sc am w = (r, w')"
  shows "set (steps (since w w')) \<subseteq> {lr0}
     \<and> (opt_lr w' = lr0 \<and> sched_last_epoch w' = 0
        \<or> opt_lr w' = opt_lr w \<and> sched_last_epoch w' = sched_last_epoch w
          \<and> forwards (since w w') = [] \<and> steps (since w w') = [])"
proof -
  obtain r1 w1 where p: "prepare c bs lr0 sc w = (r1, w1)"
    by (cases "prepare c bs lr0 sc w")
  from prepare_frame [OF p] obtain e1 where
    f1: "trace w1 = trace w @ e1" "steps e1 = []" "forwards e1 = []"
    and c0: "opt_lr w1 = lr0 \<and> sched_last_epoch w1 = 0
        \<or> opt_lr w1 = opt_lr w \<and> sched_last_epoch w1 = sched_last_epoch w"
    and c1: "\<forall>x. r1 = Inr x \<longrightarrow> opt_lr w1 = lr0 \<and> sched_last_epoch w1 = 0"
    by blast
  show ?thesis
  proof (cases r1)
    case (Inl e)
    with assms p have "w' = w1" by (simp add: train_net_def)
    with c0 f1 since_append [OF f1(1)] show ?thesis by auto
  next
    case (Inr x)
    obtain n_train ld vld where x: "x = (n_train, ld, vld)" by (cases x) auto
    with assms p Inr have
      l: "epochs_loop c nch am n_train bs ld [0..<nat ne] 0 w1 = (r, w')"
      by (simp add: train_net_def)
    from epochs_loop_loop_frame [OF l] obtain e2 where
      f2: "opt_lr w' = opt_lr w1" "sched_last_epoch w' = sched_last_epoch w1"
          "trace w' = trace w1 @ e2" "set (steps e2) \<subseteq> {opt_lr w1}"
      unfolding loop_frame_def by blast
    from f1 f2 have "trace w' = trace w @ (e1 @ e2)" by simp
    from since_append [OF this] f1 f2 Inr c1 show ?thesis
      by (simp add: proj_append)
  qed
qed

theorem learning_rate_constant_witness:
  "set (steps (since (ex_world (Some 10))
      (snd (train_net (ex_collab [3, 3, 3, 3, 3]) 3 3 2 (1 / 100) (10 / 100) True 1 False
              (ex_world (Some 10)))))) \<subseteq> {1 / 100}
   \<and> steps (trace (snd (train_net (ex_collab [3, 3, 3, 3, 3]) 3 3 2 (1 / 100) (10 / 100) True 1 False
              (ex_world (Some 10))))) = [1 / 100]
   \<and> opt_lr (snd (train_net (ex_collab [3, 3, 3, 3, 3]) 3 3 2 (1 / 100) (10 / 100) True 1 False
              (ex_world (Some 10)))) = 1 / 100
   \<and> opt_lr (ex_world (Some 10)) = 0"
proof -
  have r: "train_net (ex_collab [3, 3, 3, 3, 3]) 3 3 2 (1 / 100) (10 / 100) True 1 False
              (ex_world (Some 10)) =
     (Inl KeyboardInterrupt,
      (ex_ready None)\<lparr>params := 1,
        trace := trace (ex_ready None) @ [Forward 2, OptimStep (1 / 100), Loss 7, Forward 2]\<rparr>)"
    using ex_run_interrupted by (simp add: ex_args_def)
  from learning_rate_constant [OF r] show ?thesis
    unfolding r by (simp add: ex_ready_def ex_world_def)
qed

subsection \<open>C8: the split is deterministic\<close>

lemma try_dataset_world_free:
  assumes "sigint w1 = None" and "sigint w2 = None"
  shows "fst (try_dataset c di dm sc w1) = fst (try_dataset c di dm sc w2)"
    and "sigint (snd (try_dataset c di dm sc w1)) = None"
  using assms
  by (auto simp: try_dataset_def Let_def tick_quiet split: sum.splits if_splits)

lemma split_and_load_world_free:
  "fst (split_and_load c dtr dte bs w1) = fst (split_and_load c dtr dte bs w2)"
  by (simp add: split_and_load_def split_train_def split_val_def random_split_own
      split: sum.splits)

lemma start_run_quiet:
  "sigint w = None \<Longrightarrow>
     start_run c lr0 w =
       (Inr (), (emit TrackerInit w)\<lparr>optim := optim_init c (params w) lr0, opt_lr := lr0,
                  sched_last_epoch := 0\<rparr>)"
  by (simp add: start_run_def tick_quiet)

lemma prepare_world_free:
  assumes "sigint w1 = None" and "sigint w2 = None"
  shows "fst (prepare c bs lr1 sc w1) = fst (prepare c bs lr2 sc w2)
     \<and> sigint (snd (prepare c bs lr1 sc w1)) = None"
proof -
  obtain r1 u1 where d1: "try_dataset c dir_img_training dir_mask_training sc w1 = (r1, u1)"
    by (cases "try_dataset c dir_img_training dir_mask_training sc w1")
  obtain r2 u2 where d2: "try_dataset c dir_img_training dir_mask_training sc w2 = (r2, u2)"
    by (cases "try_dataset c dir_img_training dir_mask_training sc w2")
  from try_dataset_world_free(1) [OF assms, of c dir_img_training dir_mask_training sc] d1 d2
  have r: "r2 = r1" by simp
  from try_dataset_sigint [OF assms(1) d1] have s1: "sigint u1 = None" .
  from try_dataset_sigint [OF assms(2) d2] have s2: "sigint u2 = None" .
  show ?thesis
  proof (cases r1)
    case (Inl e)
    with d1 d2 r s1 show ?thesis by (simp add: prepare_def)
  next
    case (Inr dtr)
    obtain r3 u3 where d3: "try_dataset c dir_img_testing dir_mask_testing sc u1 = (r3, u3)"
      by (cases "try_dataset c dir_img_testing dir_mask_testing sc u1")
    obtain r4 u4 where d4: "try_dataset c dir_img_testing dir_mask_testing sc u2 = (r4, u4)"
      by (cases "try_dataset c dir_img_testing dir_mask_testing sc u2")
    from try_dataset_world_free(1) [OF s1 s2, of c dir_img_testing dir_mask_testing sc] d3 d4
    have r': "r4 = r3" by simp
    from try_dataset_sigint [OF s1 d3] have s3: "sigint u3 = None" .
    from try_dataset_sigint [OF s2 d4] have s4: "sigint u4 = None" .
    show ?thesis
    proof (cases r3)
      case (Inl e)
      with d1 d2 r Inr d3 d4 r' s3 show ?thesis by (simp add: prepare_def)
    next
      case Inr2: (Inr dte)
      obtain q where q3: "split_and_load c dtr dte bs u3 = (q, u3)"
        using split_and_load_world [of c dtr dte bs u3]
        by (cases "split_and_load c dtr dte bs u3") simp
      obtain q' where q4: "split_and_load c dtr dte bs u4 = (q', u4)"
        using split_and_load_world [of c dtr dte bs u4]
        by (cases "split_and_load c dtr dte bs u4") simp
      from split_and_load_world_free [of c dtr dte bs u3 u4] q3 q4 have q: "q' = q" by simp
      show ?thesis
      proof (cases q)
        case (Inl e)
        with d1 d2 r Inr d3 d4 r' Inr2 q3 q4 q s3 show ?thesis by (simp add: prepare_def)
      next
        case Inr3: (Inr y)
        obtain sets ld vld where y: "y = (sets, ld, vld)" by (cases y) auto
        from d1 d2 r Inr d3 d4 r' Inr2 q3 q4 q Inr3 y s3 s4 show ?thesis
          by (simp add: prepare_def start_run_quiet)
      qed
    qed
  qed
qed

lemma concat_slices: "concat (slices xs ls) = take (sum_list ls) xs"
proof (induction ls arbitrary: xs)
  case Nil
  show ?case by simp
next
  case (Cons l ls)
  have "take l xs @ take (sum_list ls) (drop l xs) = take (l + sum_list ls) xs"
    by (simp add: take_add)
  with Cons show ?case by simp
qed

text \<open>
  C8. A split that draws from a generator seeded by the caller assigns the indices as a
  function of the length of the dataset, the requested sizes and the seed: the subsets
  are the consecutive runs of the permutation that the seed determines, whatever the
  world in which the split is made and whatever the state of the default generator, and
  the split leaves the world, the default generator with it, as it was. So two datasets
  of one length are split alike in any two worlds, by \<open>random_split\<close> with a seeded
  generator and by the two splits of \<open>train_net\<close>; two runs of the set-up from
  different worlds (with no cancellation pending) and with different learning rates
  produce the same loaders and so the same assignment; and so does a second run of the
  set-up in the world that the first one left.
\<close>

theorem split_deterministic:
  assumes "length (samples ds1) = length (samples ds2)"
  shows "map_sum id (map indices) (fst (random_split c ds1 ls (Own (manual_seed c seed)) w1))
           = map_sum id (map indices) (fst (random_split c ds2 ls (Own (manual_seed c seed)) w2))
     \<and> snd (random_split c ds1 ls (Own (manual_seed c seed)) w1) = w1
     \<and> (\<forall>parts. fst (random_split c ds1 ls (Own (manual_seed c seed)) w1) = Inr parts \<longrightarrow>
            map indices parts = slices (randperm c (sum_list ls) (manual_seed c seed)) ls
            \<and> concat (map indices parts) = take (sum_list ls) (randperm c (sum_list ls) (manual_seed c seed))
            \<and> sum_list ls = length (samples ds1))
     \<and> map_sum id (map indices) (fst (split_train c ds1 w1))
           = map_sum id (map indices) (fst (split_train c ds2 w2))
     \<and> map_sum id (map indices) (fst (split_val c ds1 w1))
           = map_sum id (map indices) (fst (split_val c ds2 w2))
     \<and> (sigint w1 = None \<and> sigint w2 = None \<longrightarrow>
            fst (prepare c bs lr1 sc w1) = fst (prepare c bs lr2 sc w2))
     \<and> (sigint w1 = None \<longrightarrow>
            fst (prepare c bs lr1 sc (snd (prepare c bs lr1 sc w1))) = fst (prepare c bs lr1 sc w1))"
proof -
  let ?g = "manual_seed c seed"
  have a: "map_sum id (map indices) (fst (random_split c ds1 ls (Own ?g) w1))
           = map_sum id (map indices) (fst (random_split c ds2 ls (Own ?g) w2))"
    using assms by (simp add: random_split_own comp_def)
  have b: "snd (random_split c ds1 ls (Own ?g) w1) = w1"
    by (simp add: random_split_own)
  have c: "\<forall>parts. fst (random_split c ds1 ls (Own ?g) w1) = Inr parts \<longrightarrow>
            map indices parts = slices (randperm c (sum_list ls) ?g) ls
            \<and> concat (map indices parts) = take (sum_list ls) (randperm c (sum_list ls) ?g)
            \<and> sum_list ls = length (samples ds1)"
  proof (intro allI impI)
    fix parts
    assume "fst (random_split c ds1 ls (Own ?g) w1) = Inr parts"
    then have s: "sum_list ls = length (samples ds1)"
      and p: "parts = map (\<lambda>is. \<lparr>base = ds1, indices = is\<rparr>)
                  (slices (randperm c (sum_list ls) ?g) ls)"
      by (auto simp: random_split_own split: if_splits)
    from p have "map indices parts = slices (randperm c (sum_list ls) ?g) ls"
      by (simp add: comp_def)
    with s show "map indices parts = slices (randperm c (sum_list ls) ?g) ls
            \<and> concat (map indices parts) = take (sum_list ls) (randperm c (sum_list ls) ?g)
            \<and> sum_list ls = length (samples ds1)"
      by (simp add: concat_slices)
  qed
  have d: "map_sum id (map indices) (fst (split_train c ds1 w1))
           = map_sum id (map indices) (fst (split_train c ds2 w2))"
    using assms by (simp add: split_train_def random_split_own comp_def)
  have e: "map_sum id (map indices) (fst (split_val c ds1 w1))
           = map_sum id (map indices) (fst (split_val c ds2 w2))"
    using assms by (simp add: split_val_def random_split_own comp_def)
  have f: "sigint w1 = None \<and> sigint w2 = None \<longrightarrow>
            fst (prepare c bs lr1 sc w1) = fst (prepare c bs lr2 sc w2)"
    using prepare_world_free [of w1 w2 c bs lr1 sc lr2] by blast
  have g: "sigint w1 = None \<longrightarrow>
            fst (prepare c bs lr1 sc (snd (prepare c bs lr1 sc w1))) = fst (prepare c bs lr1 sc w1)"
  proof
    assume s: "sigint w1 = None"
    from prepare_world_free [OF s s, of c bs lr1 sc lr1]
    have "sigint (snd (prepare c bs lr1 sc w1)) = None" by blast
    from prepare_world_free [OF this s, of c bs lr1 sc lr1]
    show "fst (prepare c bs lr1 sc (snd (prepare c bs lr1 sc w1))) = fst (prepare c bs lr1 sc w1)"
      by blast
  qed
  from a b c d e f g show ?thesis by blast
qed

text \<open>
  In the example the seeded splits of two datasets of three samples agree in worlds whose
  default generators differ, and so do the set-ups. The same split drawn from the default
  generator does not: it depends on the state of that generator, which it advances, so
  that a second split gives another assignment.
\<close>

theorem split_deterministic_witness:
  "map_sum id (map indices) (fst (split_train (ex_collab [3, 3, 3]) (ex_dataset [3, 3, 3])
        (ex_world None)))
     = map_sum id (map indices) (fst (split_train (ex_collab [3, 3, 3]) (ex_dataset [1, 4, 2])
        ((ex_world None)\<lparr>default_rng := 2\<rparr>)))
   \<and> map_sum id (map indices) (fst (split_train (ex_collab [3, 3, 3]) (ex_dataset [3, 3, 3])
        (ex_world None))) = Inr [[2, 1, 0], []]
   \<and> fst (prepare (ex_collab [3, 3, 3]) 2 (1 / 100) 1 (ex_world None))
     = fst (prepare (ex_collab [3, 3, 3]) 2 (1 / 2) 1 ((ex_ready None)\<lparr>default_rng := 2\<rparr>))
   \<and> map_sum id (map indices) (fst (random_split (ex_collab [3, 3, 3]) (ex_dataset [3, 3, 3])
        [3, 0] Default (ex_world None))) = Inr [[1, 0, 2], []]
   \<and> map_sum id (map indices) (fst (random_split (ex_collab [3, 3, 3]) (ex_dataset [3, 3, 3])
        [3, 0] Default ((ex_world None)\<lparr>default_rng := 2\<rparr>))) = Inr [[0, 2, 1], []]
   \<and> snd (random_split (ex_collab [3, 3, 3]) (ex_dataset [3, 3, 3]) [3, 0] Default (ex_world None))
     = (ex_world None)\<lparr>default_rng := 2\<rparr>"
proof -
  have h1: "length (samples (ex_dataset [3, 3, 3])) = length (samples (ex_dataset [1, 4, 2]))"
    by (simp add: ex_dataset_def)
  have h2: "sigint (ex_world None) = None"
    and h3: "sigint ((ex_ready None)\<lparr>default_rng := 2\<rparr>) = None"
    by (simp_all add: ex_world_def ex_ready_def)
  have s: "map_sum id (map indices) (fst (split_train (ex_collab [3, 3, 3]) (ex_dataset [3, 3, 3])
        (ex_world None))) = Inr [[2, 1, 0], []]"
    by (simp add: split_train_def random_split_own ex_collab_def ex_dataset_def upt3)
  have r3: "rotate 2 [2, Suc 0, 0] = [0, 2, Suc 0]"
    by (simp add: eval_nat_numeral)
  have u1: "random_split (ex_collab [3, 3, 3]) (ex_dataset [3, 3, 3]) [3, 0] Default (ex_world None)
      = (Inr [\<lparr>base = ex_dataset [3, 3, 3], indices = [1, 0, 2]\<rparr>,
              \<lparr>base = ex_dataset [3, 3, 3], indices = []\<rparr>],
         (ex_world None)\<lparr>default_rng := 2\<rparr>)"
    by (simp add: random_split_def draw_randperm_def ex_collab_def ex_dataset_def ex_world_def
        upt3 r3)
  have u2: "random_split (ex_collab [3, 3, 3]) (ex_dataset [3, 3, 3]) [3, 0] Default
        ((ex_world None)\<lparr>default_rng := 2\<rparr>)
      = (Inr [\<lparr>base = ex_dataset [3, 3, 3], indices = [0, 2, 1]\<rparr>,
              \<lparr>base = ex_dataset [3, 3, 3], indices = []\<rparr>],
         (ex_world None)\<lparr>default_rng := 3\<rparr>)"
    by (simp add: random_split_def draw_randperm_def ex_collab_def ex_dataset_def ex_world_def
        upt3 r3)
  from split_deterministic [OF h1, of "ex_collab [3, 3, 3]" _ 0 "ex_world None"
      "(ex_world None)\<lparr>default_rng := 2\<rparr>"]
  have t1: "map_sum id (map indices) (fst (split_train (ex_collab [3, 3, 3]) (ex_dataset [3, 3, 3])
        (ex_world None)))
     = map_sum id (map indices) (fst (split_train (ex_collab [3, 3, 3]) (ex_dataset [1, 4, 2])
        ((ex_world None)\<lparr>default_rng := 2\<rparr>)))"
    by blast
  from split_deterministic [OF h1, of "ex_collab [3, 3, 3]" _ 0 "ex_world None"
      "(ex_ready None)\<lparr>default_rng := 2\<rparr>" 2 "1 / 100" 1 "1 / 2"] h2 h3
  have t2: "fst (prepare (ex_collab [3, 3, 3]) 2 (1 / 100) 1 (ex_world None))
     = fst (prepare (ex_collab [3, 3, 3]) 2 (1 / 2) 1 ((ex_ready None)\<lparr>default_rng := 2\<rparr>))"
    by blast
  from t1 t2 s show ?thesis
    unfolding u1 u2 by simp
qed

subsection \<open>C9: fewer samples than one batch\<close>

text \<open>
  C9. When the set-up succeeds with fewer training samples than the batch size, at least
  one epoch is requested and the batches of the first epoch are processed without error,
  the program ends with an uncaught ZeroDivisionError in the world those batches left:
  one loss was read per batch, and nothing was logged or saved.
\<close>

theorem small_dataset_zero_division:
  assumes "load_weights a w = Inr w0"
    and "prepare c (arg_batch_size a) (arg_lr a) (arg_scale a) w0 = (Inr (n_train, ld, vld), w1)"
    and "n_train < arg_batch_size a"
    and "0 < arg_epochs a"
    and "batches_loop c 3 (arg_amp a) (batches_of ld) (0, 0) w1 = (Inr st, w2)"
  shows "main c a w = (Uncaught ZeroDivisionError, w2)
     \<and> logs (since w0 w2) = [] \<and> saves (since w0 w2) = []
     \<and> length (losses (since w0 w2)) = length (batches_of ld)"
proof -
  from prepare_frame [OF assms(2)] obtain e1 where
    f1: "trace w1 = trace w0 @ e1" "logs e1 = []" "saves e1 = []" and l1: "losses e1 = []"
    and n0: "0 \<le> n_train"
    by auto
  with assms(3) have z: "n_train div arg_batch_size a = 0" by simp
  from batches_loop_events [OF assms(5)] obtain e2 where
    f2: "trace w2 = trace w1 @ e2" "length (losses e2) = length (batches_of ld)"
    by blast
  note fr = batches_loop_frame [OF assms(5)]
  from fr f2(1) have q2: "logs e2 = []" "saves e2 = []" by (simp_all add: proj_append)
  from f1 f2 have "trace w2 = trace w0 @ (e1 @ e2)" by simp
  from since_append [OF this] f1 f2 q2 l1 have
    s: "logs (since w0 w2) = [] \<and> saves (since w0 w2) = []
     \<and> length (losses (since w0 w2)) = length (batches_of ld)"
    by (simp add: proj_append)
  have "train_epoch c 3 (arg_amp a) n_train (arg_batch_size a) ld 0 0 w1
          = (Inl ZeroDivisionError, w2)"
    using assms(5) z by (simp add: train_epoch_def log_epoch_def)
  then have "epochs_loop c 3 (arg_amp a) n_train (arg_batch_size a) ld (0 # [1..<nat (arg_epochs a)]) 0 w1
          = (Inl ZeroDivisionError, w2)"
    by (rule epochs_loop_first_fails)
  moreover from assms(4) have "[0..<nat (arg_epochs a)] = 0 # [1..<nat (arg_epochs a)]"
    by (simp add: upt_conv_Cons)
  ultimately have "train_net c 3 (arg_epochs a) (arg_batch_size a) (arg_lr a) (arg_val a / 100)
      True (arg_scale a) (arg_amp a) w0 = (Inl ZeroDivisionError, w2)"
    using assms(2) by (simp add: train_net_def)
  with assms(1) have "main c a w = (Uncaught ZeroDivisionError, w2)"
    by (simp add: main_def)
  with s show ?thesis by simp
qed

theorem small_dataset_zero_division_witness:
  "main (ex_collab [3, 3, 3]) (ex_args 3 6) (ex_world None) =
     (Uncaught ZeroDivisionError,
      (ex_ready None)\<lparr>params := 1,
        trace := trace (ex_ready None) @ [Forward 3, OptimStep (1 / 100), Loss 3]\<rparr>)
   \<and> length (samples (ex_dataset [3, 3, 3])) = 3"
proof -
  let ?a = "ex_args 3 6"
  let ?w2 = "(ex_ready None)\<lparr>params := 1,
        trace := trace (ex_ready None) @ [Forward 3, OptimStep (1 / 100), Loss 3]\<rparr>"
  have h1: "load_weights ?a (ex_world None) = Inr (ex_world None)"
    by (simp add: load_weights_def ex_args_def)
  have h2: "prepare (ex_collab [3, 3, 3]) (arg_batch_size ?a) (arg_lr ?a) (arg_scale ?a)
      (ex_world None) = (Inr (3, ex_loader [3, 3, 3] 6, ex_val_loader [3, 3, 3] 6), ex_ready None)"
    using ex_prepare_quiet [of 6 "[3, 3, 3]"] by (simp add: ex_args_def)
  have h3: "(3::int) < arg_batch_size ?a" and h4: "0 < arg_epochs ?a"
    by (simp_all add: ex_args_def)
  have h5: "batches_loop (ex_collab [3, 3, 3]) 3 (arg_amp ?a) (batches_of (ex_loader [3, 3, 3] 6))
      (0, 0) (ex_ready None) = (Inr (3, 3), ?w2)"
    by (simp add: ex_batches_333 ex_args_def batch_step_def ex_ready_def ex_collab_def tick_def
        emit_def smp_def)
  from small_dataset_zero_division [OF h1 h2 h3 h4 h5] show ?thesis
    by (simp add: ex_dataset_def)
qed

subsection \<open>C10: where the interrupt checkpoint goes\<close>

text \<open>
  C10. When KeyboardInterrupt leaves \<open>train_net\<close>, the handler saves to the name
  INTERRUPTED.pth and to no other: one save, when that name can be written, and none
  otherwise. That name lies in the working directory, not in the checkpoint directory.
  The handler makes no directory, so it does not create the checkpoint directory, and it
  leaves every other file, the periodic checkpoints among them, as it was. Every file
  that the training saved is a periodic checkpoint in the directory checkpoints and is
  not INTERRUPTED.pth, and the training left the file INTERRUPTED.pth as it was.
\<close>

theorem interrupt_file_apart:
  assumes "load_weights a w = Inr w0"
    and "train_net c 3 (arg_epochs a) (arg_batch_size a) (arg_lr a) (arg_val a / 100) True
           (arg_scale a) (arg_amp a) w0 = (Inl KeyboardInterrupt, w1)"
  shows "saves (since w1 (snd (main c a w))) =
           (if writable w interrupt_path then [([''INTERRUPTED.pth''], params w1)] else [])
     \<and> (\<forall>s \<in> set (saves (since w1 (snd (main c a w)))).
            parent (fst s) = [] \<and> parent (fst s) \<noteq> dir_checkpoint)
     \<and> (writable w interrupt_path \<longrightarrow>
            files (snd (main c a w)) [''INTERRUPTED.pth''] = Some (params w1))
     \<and> (\<forall>f. f \<noteq> [''INTERRUPTED.pth''] \<longrightarrow> files (snd (main c a w)) f = files w1 f)
     \<and> mkdirs (since w1 (snd (main c a w))) = []
     \<and> dirs (snd (main c a w)) = dirs w1
     \<and> (\<forall>s \<in> set (saves (since w0 w1)).
            (\<exists>epoch. fst s = checkpoint_path epoch) \<and> parent (fst s) = [''checkpoints'']
            \<and> fst s \<noteq> [''INTERRUPTED.pth''])
     \<and> files w1 [''INTERRUPTED.pth''] = files w0 [''INTERRUPTED.pth'']"
proof -
  let ?w2 = "emit (Save interrupt_path (params w1))
               (w1\<lparr>files := (files w1)(interrupt_path \<mapsto> params w1)\<rparr>)"
  note lw = load_weights_ok [OF assms(1)]
  from lw have "writable w0 interrupt_path \<longleftrightarrow> writable w interrupt_path"
    by (simp add: writable_def)
  with train_net_writable [OF assms(2)] have
    wr: "writable w1 interrupt_path \<longleftrightarrow> writable w interrupt_path"
    by simp
  note m = main_interrupted [OF assms]
  have ip: "interrupt_path = [''INTERRUPTED.pth'']"
    by (simp add: interrupt_path_def)
  have dc: "dir_checkpoint = [''checkpoints'']"
    by (simp add: dir_checkpoint_def)
  from train_net_saves [OF assms(2)] obtain evs where
    e: "trace w1 = trace w0 @ evs" "fst ` set (saves evs) \<subseteq> range checkpoint_path"
       "\<forall>f. f \<notin> range checkpoint_path \<longrightarrow> files w1 f = files w0 f"
    by blast
  from e(3) interrupt_not_checkpoint ip have
    t: "files w1 [''INTERRUPTED.pth''] = files w0 [''INTERRUPTED.pth'']"
    by simp
  have p: "\<forall>s \<in> set (saves (since w0 w1)).
            (\<exists>epoch. fst s = checkpoint_path epoch) \<and> parent (fst s) = [''checkpoints'']
            \<and> fst s \<noteq> [''INTERRUPTED.pth'']"
  proof
    fix s
    assume "s \<in> set (saves (since w0 w1))"
    with since_append [OF e(1)] e(2) obtain epoch where s: "fst s = checkpoint_path epoch"
      by auto
    with parent_checkpoint_path [of epoch] checkpoint_not_interrupt [of epoch] ip dc
    show "(\<exists>epoch. fst s = checkpoint_path epoch) \<and> parent (fst s) = [''checkpoints'']
            \<and> fst s \<noteq> [''INTERRUPTED.pth'']"
      by auto
  qed
  show ?thesis
  proof (cases "writable w interrupt_path")
    case True
    with wr on_interrupt_ok [of w1] m have m': "main c a w = (Exit 0, ?w2)"
      by simp
    from True m' t p show ?thesis
      by (simp add: since_def interrupt_path_def parent_def dir_checkpoint_def)
  next
    case False
    with wr on_interrupt_fails [of w1] m have m': "main c a w = (Uncaught OSError, w1)"
      by simp
    from False m' t p show ?thesis
      by (simp add: since_def interrupt_path_def)
  qed
qed

theorem interrupt_file_apart_witness:
  "files (snd (main (ex_collab [3, 3, 3, 3, 3]) (ex_args 3 2) (ex_world (Some 16))))
     [''checkpoints'', ''checkpoint_epoch_224x224_1.pth''] = Some 3
   \<and> files (snd (main (ex_collab [3, 3, 3, 3, 3]) (ex_args 3 2) (ex_world (Some 16))))
     [''INTERRUPTED.pth''] = Some 3
   \<and> saves (trace (snd (main (ex_collab [3, 3, 3, 3, 3]) (ex_args 3 2) (ex_world (Some 16)))))
     = [([''checkpoints'', ''checkpoint_epoch_224x224_1.pth''], 3), ([''INTERRUPTED.pth''], 3)]
   \<and> mkdirs (trace (snd (main (ex_collab [3, 3, 3, 3, 3]) (ex_args 3 2) (ex_world (Some 16)))))
     = [[''checkpoints'']]
   \<and> saves (trace (snd (main (ex_collab [3, 3, 3, 3, 3]) (ex_args 3 2) (ex_world (Some 10)))))
     = [([''INTERRUPTED.pth''], 1)]
   \<and> dirs (snd (main (ex_collab [3, 3, 3, 3, 3]) (ex_args 3 2) (ex_world (Some 10)))) = {}"
proof -
  have l: "load_weights (ex_args 3 2) (ex_world (Some 16)) = Inr (ex_world (Some 16))"
    and l': "load_weights (ex_args 3 2) (ex_world (Some 10)) = Inr (ex_world (Some 10))"
    by (simp_all add: load_weights_def ex_args_def)
  have d: "writable (ex_world (Some 16)) interrupt_path"
    and d': "writable (ex_world (Some 10)) interrupt_path"
    by (simp_all add: writable_def ex_world_def parent_interrupt_path)
  have m: "main (ex_collab [3, 3, 3, 3, 3]) (ex_args 3 2) (ex_world (Some 16)) =
     (Exit 0, (ex_ready None)\<lparr>params := 3,
        files := [checkpoint_path 0 \<mapsto> 3, interrupt_path \<mapsto> 3],
        dirs := {dir_checkpoint},
        trace := trace (ex_ready None) @
          [Forward 2, OptimStep (1 / 100), Loss 7, Forward 2, OptimStep (1 / 100), Loss 4,
           Forward 1, OptimStep (1 / 100), Loss 2, LogLoss (13 / 2) 1 0,
           Mkdir dir_checkpoint, Save (checkpoint_path 0) 3, Save interrupt_path 3]\<rparr>)"
    unfolding main_def l using ex_run_interrupted_late
    by (simp add: on_interrupt_def torch_save_def writable_def parent_interrupt_path
        interrupt_not_dir emit_def ex_ready_def)
  have m': "main (ex_collab [3, 3, 3, 3, 3]) (ex_args 3 2) (ex_world (Some 10)) =
     (Exit 0, (ex_ready None)\<lparr>params := 1,
        files := [interrupt_path \<mapsto> 1],
        trace := trace (ex_ready None)
          @ [Forward 2, OptimStep (1 / 100), Loss 7, Forward 2, Save interrupt_path 1]\<rparr>)"
    unfolding main_def l' using ex_run_interrupted
    by (simp add: on_interrupt_def torch_save_def writable_def parent_interrupt_path emit_def
        ex_ready_def)
  from interrupt_file_apart [OF l ex_run_interrupted_late]
    interrupt_file_apart [OF l' ex_run_interrupted] d d'
  show ?thesis
    unfolding m m'
    by (simp add: ex_ready_def interrupt_path_def checkpoint_path_def dir_checkpoint_def
        str_nat.simps digit_def)
qed


end
